theory Spec2Isabelle
  imports Complex_Main
begin

section \<open>The weather simulation of apps/openmw/mwworld/weather.cpp\<close>

text \<open>
  Conventions of the embedding.
  \<^item> A C++ \<open>float\<close> or \<open>double\<close> is a \<open>real\<close>; infinities and NaN are not modelled, and
    a division by zero yields \<open>0\<close> as in HOL. The interpolation (\<open>lerp\<close>, \<open>getValue\<close>,
    the time settings) rounds every operation to binary32; the transition factor and the
    thunder are computed exactly.
  \<^item> A C++ \<open>int\<close> is an \<open>int\<close>; an entry of a \<open>std::vector<char>\<close> is the \<open>int\<close> it is
    promoted to when it is read. The running sum of \<open>chooseNewWeather\<close> cannot overflow
    for a table of fewer than \<open>2 ^ 24\<close> entries.
  \<^item> A \<open>std::vector\<close> is a record of its elements and its capacity; an access through
    \<open>operator[]\<close> at an index that is not below the size is the error \<open>OutOfBounds\<close>.
  \<^item> A failed \<open>assert\<close> is the error \<open>AssertionFailed\<close>.
  \<^item> A value drawn from \<open>Misc::Rng\<close> is an argument of the function that draws it.
\<close>

datatype error = OutOfBounds | AssertionFailed

subsection \<open>std::vector\<close>

record 'a vector =
  elems :: "'a list"
  capacity :: nat

definition vsize :: "'a vector \<Rightarrow> nat" where
  "vsize v = length (elems v)"

text \<open>\<open>reserve(n)\<close> raises the capacity to at least \<open>n\<close>; size and elements stay.\<close>

definition reserve :: "nat \<Rightarrow> 'a vector \<Rightarrow> 'a vector" where
  "reserve n v = (if capacity v < n then v\<lparr>capacity := n\<rparr> else v)"

definition vget :: "'a vector \<Rightarrow> nat \<Rightarrow> error + 'a" where
  "vget v i = (if i < vsize v then Inr (elems v ! i) else Inl OutOfBounds)"

definition vset :: "'a vector \<Rightarrow> nat \<Rightarrow> 'a \<Rightarrow> error + 'a vector" where
  "vset v i x = (if i < vsize v then Inr (v\<lparr>elems := (elems v)[i := x]\<rparr>) else Inl OutOfBounds)"

definition vector_of :: "'a list \<Rightarrow> 'a vector" where
  "vector_of xs = \<lparr>elems = xs, capacity = length xs\<rparr>"

subsection \<open>binary32 rounding\<close>

text \<open>
  The interpolation is modelled with its rounding, since how far a blend can leave the
  keyframes depends on it. A binary32 value is the real it denotes, and every
  operation on \<open>float\<close> yields \<open>round32\<close> of its exact result: round to nearest, ties to
  the even significand, a significand of 24 bits, gradual underflow below \<open>2\<close> to the
  \<open>-126\<close>. No fused multiply-add and no excess precision are assumed. Overflow is not
  modelled: above the largest finite value the rounding continues with the exponent
  \<open>127\<close>; neither are infinities and NaN.
\<close>

text \<open>The nearest integer, a tie going to the even one.\<close>

definition roundEven :: "real \<Rightarrow> int" where
  "roundEven y =
     (let n = \<lfloor>y\<rfloor>; d = y - of_int n
      in if d < 1 / 2 then n else if 1 / 2 < d then n + 1 else if even n then n else n + 1)"

text \<open>
  The exponent of the binade of \<open>a\<close>, searched downwards from \<open>e\<close> in at most \<open>n\<close> steps.
\<close>

fun expoSearch :: "nat \<Rightarrow> int \<Rightarrow> real \<Rightarrow> int" where
  "expoSearch 0 e a = e"
| "expoSearch (Suc n) e a = (if 2 powi e \<le> a then e else expoSearch n (e - 1) a)"

text \<open>The exponent of a binary32 value lies between \<open>-126\<close> and \<open>127\<close>.\<close>

definition expo32 :: "real \<Rightarrow> int" where
  "expo32 x = expoSearch 253 127 \<bar>x\<bar>"

text \<open>The distance of neighbouring binary32 values in the binade of \<open>x\<close>.\<close>

definition ulp32 :: "real \<Rightarrow> real" where
  "ulp32 x = 2 powi (expo32 x - 23)"

definition round32 :: "real \<Rightarrow> real" where
  "round32 x = of_int (roundEven (x / ulp32 x)) * ulp32 x"

subsection \<open>Interpolation over the time of day\<close>

definition invalidWeatherID :: int where
  "invalidWeatherID = - 1"

type_synonym Vec4f = "real \<times> real \<times> real \<times> real"

text \<open>\<open>x * (1-factor) + y * factor\<close> on \<open>float\<close>: four operations, each rounded.\<close>

definition lerp :: "real \<Rightarrow> real \<Rightarrow> real \<Rightarrow> real" where
  "lerp x y factor = round32 (round32 (x * round32 (1 - factor)) + round32 (y * factor))"

text \<open>The same on \<open>osg::Vec4f\<close>, whose product with a \<open>float\<close> and whose sum go by component.\<close>

definition lerp_Vec4f :: "Vec4f \<Rightarrow> Vec4f \<Rightarrow> real \<Rightarrow> Vec4f" where
  "lerp_Vec4f x y factor =
     (case x of (x0, x1, x2, x3) \<Rightarrow> case y of (y0, y1, y2, y3) \<Rightarrow>
        (let g = round32 (1 - factor)
         in (round32 (round32 (x0 * g) + round32 (y0 * factor)),
             round32 (round32 (x1 * g) + round32 (y1 * factor)),
             round32 (round32 (x2 * g) + round32 (y2 * factor)),
             round32 (round32 (x3 * g) + round32 (y3 * factor)))))"

record TimeOfDaySettings =
  mNightStart :: real
  mNightEnd :: real
  mDayStart :: real
  mDayEnd :: real
  mSunriseTime :: real

record 'a TimeOfDayInterpolator =
  mSunriseValue :: 'a
  mDayValue :: 'a
  mSunsetValue :: 'a
  mNightValue :: 'a

text \<open>
  The template \<open>TimeOfDayInterpolator<T>::getValue\<close>. The overload of \<open>lerp\<close> that the
  instance selects and the value \<open>T()\<close> of the last line are its first two arguments.
  The sums and differences of the hour and the settings are \<open>float\<close> operations.
\<close>

definition getValue_T ::
  "('a \<Rightarrow> 'a \<Rightarrow> real \<Rightarrow> 'a) \<Rightarrow> 'a \<Rightarrow> 'a TimeOfDayInterpolator \<Rightarrow> real \<Rightarrow> TimeOfDaySettings \<Rightarrow> 'a"
where
  "getValue_T lerpT dflt ip gameHour timeSettings =
     (if gameHour \<le> mNightEnd timeSettings \<or> gameHour \<ge> round32 (mNightStart timeSettings + 1)
      then mNightValue ip
      else if gameHour \<ge> mNightEnd timeSettings \<and> gameHour \<le> round32 (mDayStart timeSettings + 1)
      then
        (if gameHour \<le> mSunriseTime timeSettings
         then
           (let advance = round32 (mSunriseTime timeSettings - gameHour);
                factor = round32 (advance / 0.5)
            in lerpT (mSunriseValue ip) (mNightValue ip) factor)
         else
           (let advance = round32 (gameHour - mSunriseTime timeSettings);
                factor = round32 (advance / 3)
            in lerpT (mSunriseValue ip) (mDayValue ip) factor))
      else if gameHour \<ge> round32 (mDayStart timeSettings + 1) \<and>
              gameHour \<le> round32 (mDayEnd timeSettings - 1)
      then mDayValue ip
      else if gameHour \<ge> round32 (mDayEnd timeSettings - 1) \<and>
              gameHour \<le> round32 (mNightStart timeSettings + 1)
      then
        (if gameHour \<le> round32 (mDayEnd timeSettings + 1)
         then
           (let advance = round32 (round32 (mDayEnd timeSettings + 1) - gameHour);
                factor = round32 (advance / 2)
            in lerpT (mSunsetValue ip) (mDayValue ip) factor)
         else
           (let advance = round32 (gameHour - round32 (mDayEnd timeSettings + 1));
                factor = round32 (advance / 2)
            in lerpT (mSunsetValue ip) (mNightValue ip) factor))
      else dflt)"

text \<open>The two instances the source instantiates.\<close>

definition getValue :: "real TimeOfDayInterpolator \<Rightarrow> real \<Rightarrow> TimeOfDaySettings \<Rightarrow> real" where
  "getValue = getValue_T lerp 0"

definition getValue_Vec4f :: "Vec4f TimeOfDayInterpolator \<Rightarrow> real \<Rightarrow> TimeOfDaySettings \<Rightarrow> Vec4f" where
  "getValue_Vec4f = getValue_T lerp_Vec4f (0, 0, 0, 0)"

text \<open>
  The settings the constructor of \<open>WeatherManager\<close> derives from the four fallback values
  \<open>Weather_Sunrise_Time\<close>, \<open>Weather_Sunset_Time\<close>, \<open>Weather_Sunrise_Duration\<close> and
  \<open>Weather_Sunset_Duration\<close>.
\<close>

definition makeTimeSettings :: "real \<Rightarrow> real \<Rightarrow> real \<Rightarrow> real \<Rightarrow> TimeOfDaySettings" where
  "makeTimeSettings sunriseTime sunsetTime sunriseDuration sunsetDuration =
     \<lparr>mNightStart = round32 (sunsetTime + sunsetDuration),
      mNightEnd = round32 (sunriseTime - 0.5),
      mDayStart = round32 (sunriseTime + sunriseDuration),
      mDayEnd = sunsetTime,
      mSunriseTime = sunriseTime\<rparr>"

text \<open>The boundary invariant of the settings.\<close>

definition boundaryInvariant :: "TimeOfDaySettings \<Rightarrow> bool" where
  "boundaryInvariant ts =
     (mNightEnd ts < mDayStart ts \<and> mDayStart ts \<le> mDayEnd ts \<and> mDayEnd ts < mNightStart ts)"

text \<open>
  What bounds the four interpolation factors: the fixed fade lengths \<open>0.5\<close>, \<open>3\<close>, \<open>2\<close>
  and \<open>2\<close> of \<open>getValue\<close> cover the windows that the settings open, with the ends of the
  windows as \<open>getValue\<close> computes them.
\<close>

definition fadesCoverWindows :: "TimeOfDaySettings \<Rightarrow> bool" where
  "fadesCoverWindows ts =
     (mSunriseTime ts \<le> mNightEnd ts + 0.5 \<and>
      round32 (mDayStart ts + 1) \<le> mSunriseTime ts + 3 \<and>
      round32 (mDayEnd ts + 1) \<le> round32 (mDayEnd ts - 1) + 2 \<and>
      round32 (mNightStart ts + 1) \<le> round32 (mDayEnd ts + 1) + 2)"

text \<open>The four keyframes.\<close>

definition keyframes :: "'a TimeOfDayInterpolator \<Rightarrow> 'a set" where
  "keyframes ip = {mSunriseValue ip, mDayValue ip, mSunsetValue ip, mNightValue ip}"

text \<open>
  A value that is the night or the day keyframe, or the blend of two adjacent keyframes
  by the given factor.
\<close>

definition blendOf ::
  "('a \<Rightarrow> 'a \<Rightarrow> real \<Rightarrow> 'a) \<Rightarrow> 'a TimeOfDayInterpolator \<Rightarrow> real \<Rightarrow> 'a \<Rightarrow> bool"
where
  "blendOf lerpT ip factor v =
     (v = mNightValue ip \<or> v = mDayValue ip \<or>
      v = lerpT (mSunriseValue ip) (mNightValue ip) factor \<or>
      v = lerpT (mSunriseValue ip) (mDayValue ip) factor \<or>
      v = lerpT (mSunsetValue ip) (mDayValue ip) factor \<or>
      v = lerpT (mSunsetValue ip) (mNightValue ip) factor)"

subsection \<open>Weather\<close>

record Weather =
  mCloudTexture :: string
  mSkyColor :: "Vec4f TimeOfDayInterpolator"
  mFogColor :: "Vec4f TimeOfDayInterpolator"
  mAmbientColor :: "Vec4f TimeOfDayInterpolator"
  mSunColor :: "Vec4f TimeOfDayInterpolator"
  mLandFogDepth :: "real TimeOfDayInterpolator"
  mSunDiscSunsetColor :: Vec4f
  mWindSpeed :: real
  mCloudSpeed :: real
  mGlareView :: real
  mIsStorm :: bool
  mRainSpeed :: real
  mRainFrequency :: real
  mParticleEffect :: string
  mRainEffect :: string
  mAmbientLoopSoundID :: string
  mTransitionDelta :: real
  mCloudsMaximumPercent :: real
  mThunderFrequency :: real
  mThunderThreshold :: real
  mThunderSoundID :: "string list"
  mFlashDecrement :: real
  mFlashBrightness :: real

definition transitionDelta :: "Weather \<Rightarrow> real" where
  "transitionDelta w = mTransitionDelta w"

definition cloudBlendFactor :: "Weather \<Rightarrow> real \<Rightarrow> real" where
  "cloudBlendFactor w transitionRatio = transitionRatio / mCloudsMaximumPercent w"

definition flashDecrement :: "real \<Rightarrow> Weather \<Rightarrow> Weather" where
  "flashDecrement elapsedSeconds w =
     (let decrement = mFlashDecrement w * elapsedSeconds
      in w\<lparr>mFlashBrightness :=
             (if decrement > mFlashBrightness w then 0 else mFlashBrightness w - decrement)\<rparr>)"

definition thunderChance :: "Weather \<Rightarrow> real \<Rightarrow> real \<Rightarrow> real" where
  "thunderChance w transitionRatio elapsedSeconds =
     (let scaleFactor = (transitionRatio - mThunderThreshold w) / (1 - mThunderThreshold w)
      in ((mThunderFrequency w * 10) / 60) * elapsedSeconds * scaleFactor)"

text \<open>
  \<open>lightningAndThunder\<close> draws \<open>distance = rollDice(4)\<close>, a value below \<open>4\<close>, brightens
  the flash and plays one sound. The result is the new weather and the sounds played.
\<close>

definition lightningAndThunder :: "nat \<Rightarrow> Weather \<Rightarrow> Weather \<times> string list" where
  "lightningAndThunder distance w =
     (w\<lparr>mFlashBrightness := mFlashBrightness w + (1 - (real distance * 0.25))\<rparr>,
      [mThunderSoundID w ! distance])"

text \<open>
  \<open>calculateThunder\<close>. \<open>prob\<close> is what \<open>rollProbability()\<close> returns and \<open>distance\<close>
  what \<open>rollDice(4)\<close> returns, where the function draws them. The result is the returned
  brightness, the sounds played during the call, and the weather after it.
\<close>

definition calculateThunder ::
  "real \<Rightarrow> real \<Rightarrow> bool \<Rightarrow> real \<Rightarrow> nat \<Rightarrow> Weather \<Rightarrow> real \<times> string list \<times> Weather"
where
  "calculateThunder transitionRatio elapsedSeconds isPaused prob distance w =
     (if \<not> isPaused
      then
        (if transitionRatio \<ge> mThunderThreshold w \<and> mThunderFrequency w > 0
         then
           (let w1 = flashDecrement elapsedSeconds w
            in if prob \<le> thunderChance w1 transitionRatio elapsedSeconds
               then (case lightningAndThunder distance w1 of
                       (w2, sounds) \<Rightarrow> (mFlashBrightness w2, sounds, w2))
               else (mFlashBrightness w1, [], w1))
         else
           (let w1 = w\<lparr>mFlashBrightness := 0\<rparr>
            in (mFlashBrightness w1, [], w1)))
      else (mFlashBrightness w, [], w))"

text \<open>
  A run of calls on one weather, each with its own arguments and draws: the values
  returned, the sounds played, and the weather after the last call.
\<close>

fun calculateThunder_calls ::
  "(real \<times> real \<times> bool \<times> real \<times> nat) list \<Rightarrow> Weather \<Rightarrow> real list \<times> string list \<times> Weather"
where
  "calculateThunder_calls [] w = ([], [], w)"
| "calculateThunder_calls ((ratio, elapsed, paused, prob, distance) # cs) w =
     (case calculateThunder ratio elapsed paused prob distance w of
        (r, snd1, w1) \<Rightarrow>
          (case calculateThunder_calls cs w1 of
             (rs, snd2, w2) \<Rightarrow> (r # rs, snd1 @ snd2, w2)))"

definition allPaused :: "(real \<times> real \<times> bool \<times> real \<times> nat) list \<Rightarrow> bool" where
  "allPaused cs = list_all (\<lambda>(ratio, elapsed, paused, prob, distance). paused) cs"

subsection \<open>RegionWeather\<close>

record RegionWeather =
  mWeather :: int
  mChances :: "int vector"

record WEATstruct =
  mClear :: int
  mCloudy :: int
  mFoggy :: int
  mOvercast :: int
  mRain :: int
  mThunder :: int
  mAsh :: int
  mBlight :: int
  mA :: int
  mB :: int

record ESM_Region =
  mId :: string
  mData :: WEATstruct

record RegionWeatherState =
  rwsWeather :: int
  rwsChances :: "int vector"

text \<open>The constructor from a region of the store: \<open>reserve(10)\<close>, then ten \<open>push_back\<close>.\<close>

definition RegionWeather_of_Region :: "ESM_Region \<Rightarrow> RegionWeather" where
  "RegionWeather_of_Region region =
     \<lparr>mWeather = invalidWeatherID,
      mChances = \<lparr>elems = [mClear (mData region), mCloudy (mData region), mFoggy (mData region),
                            mOvercast (mData region), mRain (mData region), mThunder (mData region),
                            mAsh (mData region), mBlight (mData region), mA (mData region),
                            mB (mData region)],
                   capacity = 10\<rparr>\<rparr>"

definition RegionWeather_of_State :: "RegionWeatherState \<Rightarrow> RegionWeather" where
  "RegionWeather_of_State state = \<lparr>mWeather = rwsWeather state, mChances = rwsChances state\<rparr>"

definition State_of_RegionWeather :: "RegionWeather \<Rightarrow> RegionWeatherState" where
  "State_of_RegionWeather rw = \<lparr>rwsWeather = mWeather rw, rwsChances = mChances rw\<rparr>"

text \<open>The sum of the entries of a table up to and including index \<open>i\<close>.\<close>

definition prefixSum :: "int list \<Rightarrow> nat \<Rightarrow> int" where
  "prefixSum tbl i = sum_list (take (Suc i) tbl)"

text \<open>
  The loop of \<open>chooseNewWeather\<close>: \<open>sm\<close> is the running \<open>sum\<close> and \<open>i\<close> the loop counter;
  the result is the value of \<open>i\<close> when the loop is left, by \<open>break\<close> or by its condition.
\<close>

function chooseLoop :: "int \<Rightarrow> int list \<Rightarrow> int \<Rightarrow> nat \<Rightarrow> nat" where
  "chooseLoop chance tbl sm i =
     (if i < length tbl
      then (let sm' = sm + tbl ! i
            in if chance \<le> sm' then i else chooseLoop chance tbl sm' (Suc i))
      else i)"
  by pat_completeness auto
termination
  by (relation "measure (\<lambda>(chance, tbl, sm, i). length tbl - i)") auto

declare chooseLoop.simps [simp del]

text \<open>\<open>roll\<close> is what \<open>Misc::Rng::rollDice(100)\<close> returns, a value from \<open>0\<close> to \<open>99\<close>.\<close>

definition chooseNewWeather :: "int \<Rightarrow> RegionWeather \<Rightarrow> RegionWeather" where
  "chooseNewWeather roll rw =
     (let chance = roll + 1
      in rw\<lparr>mWeather := int (chooseLoop chance (elems (mChances rw)) 0 0)\<rparr>)"

definition setWeather :: "int \<Rightarrow> RegionWeather \<Rightarrow> RegionWeather" where
  "setWeather weatherID rw = rw\<lparr>mWeather := weatherID\<rparr>"

text \<open>\<open>getWeather\<close> returns the weather and the region, which a reselection has changed.\<close>

definition getWeather :: "int \<Rightarrow> RegionWeather \<Rightarrow> int \<times> RegionWeather" where
  "getWeather roll rw =
     (let rw' = (if mWeather rw = invalidWeatherID then chooseNewWeather roll rw else rw)
      in (mWeather rw', rw'))"

text \<open>The copy loop of \<open>setChances\<close>: the iterator's remaining range and the index \<open>i\<close>.\<close>

fun writeChances :: "int list \<Rightarrow> nat \<Rightarrow> int vector \<Rightarrow> error + int vector" where
  "writeChances [] i v = Inr v"
| "writeChances (c # cs) i v =
     (case vset v i c of
        Inl e \<Rightarrow> Inl e
      | Inr v' \<Rightarrow> writeChances cs (Suc i) v')"

text \<open>
  \<open>static_cast<size_t>(mWeather) >= mChances.size()\<close>: a negative \<open>int\<close> becomes a
  \<open>size_t\<close> above every size.
\<close>

definition weatherOutOfTable :: "RegionWeather \<Rightarrow> bool" where
  "weatherOutOfTable rw = (mWeather rw < 0 \<or> nat (mWeather rw) \<ge> vsize (mChances rw))"

definition setChances :: "int list \<Rightarrow> int \<Rightarrow> RegionWeather \<Rightarrow> error + RegionWeather" where
  "setChances chances roll rw =
     (let tbl = (if vsize (mChances rw) < length chances
                 then reserve (length chances) (mChances rw)
                 else mChances rw)
      in case writeChances chances 0 tbl of
           Inl e \<Rightarrow> Inl e
         | Inr tbl' \<Rightarrow>
             (let rw' = rw\<lparr>mChances := tbl'\<rparr>
              in if weatherOutOfTable rw' \<or> elems tbl' ! nat (mWeather rw') = 0
                 then Inr (chooseNewWeather roll rw')
                 else Inr rw'))"

subsection \<open>WeatherManager\<close>

text \<open>
  Modelled from the spec: \<open>Misc::StringUtils::lowerCase\<close> (components/misc) is not under
  src/. The spec keys the region map by the lowercase region id; the model maps each of the
  letters \<open>A\<close> to \<open>Z\<close> to its lowercase letter and keeps every other character.
\<close>

definition toLower :: "char \<Rightarrow> char" where
  "toLower c =
     (if (65::nat) \<le> of_char c \<and> of_char c \<le> (90::nat)
      then char_of (of_char c + (32::nat))
      else c)"

definition lowerCase :: "string \<Rightarrow> string" where
  "lowerCase str = map toLower str"

text \<open>
  What the world reports about the player: \<open>player.isInCell()\<close>, the \<open>mRegion\<close> of the
  player's cell, and \<open>isCellExterior() || isCellQuasiExterior()\<close>.
\<close>

record Player =
  isInCell :: bool
  cellRegion :: string
  isExterior :: bool

text \<open>
  \<open>ESM::WeatherState\<close>, the persisted record, as \<open>state.load(reader)\<close> delivers it. Its
  region map is the list of its entries in the order of iteration.
\<close>

record WeatherState =
  wsCurrentRegion :: string
  wsTimePassed :: real
  wsFastForward :: bool
  wsWeatherUpdateTime :: real
  wsTransitionFactor :: real
  wsCurrentWeather :: int
  wsNextWeather :: int
  wsQueuedWeather :: int
  wsRegions :: "(string \<times> RegionWeatherState) list"

text \<open>
  The fields of \<open>WeatherManager\<close> that the functions below read or write. \<open>mStore\<close> stands
  for the regions of the ESM store. The sun times, the moons, \<open>mResult\<close>, the wind and
  storm values and the sound handles are left out: no function below reads them, and the
  source writes them in \<open>update\<close> and \<open>calculateWeatherResult\<close> only.
\<close>

record WeatherManager =
  mStore :: "ESM_Region list"
  mTimeSettings :: TimeOfDaySettings
  mHoursBetweenWeatherChanges :: real
  mWeatherSettings :: "Weather vector"
  mCurrentRegion :: string
  mTimePassed :: real
  mFastForward :: bool
  mWeatherUpdateTime :: real
  mTransitionFactor :: real
  mCurrentWeather :: int
  mNextWeather :: int
  mQueuedWeather :: int
  mRegions :: "string \<rightharpoonup> RegionWeather"

text \<open>\<open>mWeatherSettings[id]\<close> for an \<open>int\<close> index.\<close>

definition weatherAt :: "WeatherManager \<Rightarrow> int \<Rightarrow> error + Weather" where
  "weatherAt s weatherID =
     (if weatherID < 0 then Inl OutOfBounds else vget (mWeatherSettings s) (nat weatherID))"

definition forceWeather :: "int \<Rightarrow> WeatherManager \<Rightarrow> WeatherManager" where
  "forceWeather weatherID s =
     s\<lparr>mTransitionFactor := 0,
       mCurrentWeather := weatherID,
       mNextWeather := invalidWeatherID,
       mQueuedWeather := invalidWeatherID\<rparr>"

definition inTransition :: "WeatherManager \<Rightarrow> bool" where
  "inTransition s = (mNextWeather s \<noteq> invalidWeatherID)"

definition addWeatherTransition :: "int \<Rightarrow> WeatherManager \<Rightarrow> error + WeatherManager" where
  "addWeatherTransition weatherID s =
     (if \<not> (weatherID \<ge> 0 \<and> nat weatherID < vsize (mWeatherSettings s))
      then Inl AssertionFailed
      else if \<not> inTransition s \<and> weatherID \<noteq> mCurrentWeather s
      then Inr (s\<lparr>mNextWeather := weatherID, mTransitionFactor := 1\<rparr>)
      else if inTransition s \<and> weatherID \<noteq> mNextWeather s
      then Inr (s\<lparr>mQueuedWeather := weatherID\<rparr>)
      else Inr s)"

text \<open>A run of calls of \<open>addWeatherTransition\<close>, stopped by the first failed assertion.\<close>

fun addWeatherTransitions :: "int list \<Rightarrow> WeatherManager \<Rightarrow> error + WeatherManager" where
  "addWeatherTransitions [] s = Inr s"
| "addWeatherTransitions (weatherID # ids) s =
     (case addWeatherTransition weatherID s of
        Inl e \<Rightarrow> Inl e
      | Inr s' \<Rightarrow> addWeatherTransitions ids s')"

declare addWeatherTransitions.simps [simp del]

definition updateWeatherTransitions :: "real \<Rightarrow> WeatherManager \<Rightarrow> error + WeatherManager" where
  "updateWeatherTransitions elapsedRealSeconds s =
     (if \<not> mFastForward s \<and> inTransition s
      then
        (case weatherAt s (mNextWeather s) of
           Inl e \<Rightarrow> Inl e
         | Inr nextW \<Rightarrow>
             (let delta = transitionDelta nextW;
                  s1 = s\<lparr>mTransitionFactor := mTransitionFactor s - elapsedRealSeconds * delta\<rparr>
              in if mTransitionFactor s1 \<le> 0
                 then
                   (let s2 = s1\<lparr>mCurrentWeather := mNextWeather s1,
                                 mNextWeather := mQueuedWeather s1,
                                 mQueuedWeather := invalidWeatherID\<rparr>
                    in if inTransition s2
                       then
                         (case weatherAt s2 (mNextWeather s2) of
                            Inl e \<Rightarrow> Inl e
                          | Inr newW \<Rightarrow>
                              (let newDelta = transitionDelta newW;
                                   remainingSeconds = - (mTransitionFactor s2 / delta)
                               in Inr (s2\<lparr>mTransitionFactor := 1 - (remainingSeconds * newDelta)\<rparr>)))
                       else Inr (s2\<lparr>mTransitionFactor := 0\<rparr>))
                 else Inr s1))
      else
        (let s1 = (if mQueuedWeather s \<noteq> invalidWeatherID
                   then s\<lparr>mCurrentWeather := mQueuedWeather s\<rparr>
                   else if mNextWeather s \<noteq> invalidWeatherID
                   then s\<lparr>mCurrentWeather := mNextWeather s\<rparr>
                   else s)
         in Inr (s1\<lparr>mNextWeather := invalidWeatherID,
                     mQueuedWeather := invalidWeatherID,
                     mFastForward := False\<rparr>)))"

definition advanceTime :: "real \<Rightarrow> bool \<Rightarrow> WeatherManager \<Rightarrow> WeatherManager" where
  "advanceTime hours incremental s =
     s\<lparr>mTimePassed := mTimePassed s + hours,
       mFastForward := (if \<not> incremental then True else mFastForward s)\<rparr>"

text \<open>
  \<open>regionalWeatherChanged(regionID, region)\<close>: \<open>region\<close> is a reference to the entry of
  \<open>mRegions\<close> under \<open>regionID\<close>, which the model reads and writes back. \<open>roll\<close> is the
  draw of the reselection that \<open>getWeather\<close> may make.
\<close>

definition regionalWeatherChanged ::
  "Player \<Rightarrow> int \<Rightarrow> string \<Rightarrow> WeatherManager \<Rightarrow> error + WeatherManager"
where
  "regionalWeatherChanged player roll regionID s =
     (if isInCell player
      then
        (let playerRegion = lowerCase (cellRegion player)
         in if playerRegion \<noteq> [] \<and> playerRegion = regionID
            then
              (case mRegions s regionID of
                 None \<Rightarrow> Inr s
               | Some region \<Rightarrow>
                   (case getWeather roll region of
                      (weatherID, region') \<Rightarrow>
                        addWeatherTransition weatherID
                          (s\<lparr>mRegions := (mRegions s)(regionID \<mapsto> region')\<rparr>)))
            else Inr s)
      else Inr s)"

text \<open>\<open>weatherID\<close> is an \<open>unsigned int\<close>.\<close>

definition changeWeather ::
  "Player \<Rightarrow> int \<Rightarrow> string \<Rightarrow> nat \<Rightarrow> WeatherManager \<Rightarrow> error + WeatherManager"
where
  "changeWeather player roll regionID weatherID s =
     (if weatherID < vsize (mWeatherSettings s)
      then
        (let lowerCaseRegionID = lowerCase regionID
         in case mRegions s lowerCaseRegionID of
              None \<Rightarrow> Inr s
            | Some region \<Rightarrow>
                regionalWeatherChanged player roll lowerCaseRegionID
                  (s\<lparr>mRegions := (mRegions s)(lowerCaseRegionID \<mapsto> setWeather (int weatherID) region)\<rparr>))
      else Inr s)"

text \<open>\<open>roll1\<close> is the draw of \<open>setChances\<close>, \<open>roll2\<close> the one of \<open>getWeather\<close>.\<close>

definition modRegion ::
  "Player \<Rightarrow> int \<Rightarrow> int \<Rightarrow> string \<Rightarrow> int list \<Rightarrow> WeatherManager \<Rightarrow> error + WeatherManager"
where
  "modRegion player roll1 roll2 regionID chances s =
     (let lowerCaseRegionID = lowerCase regionID
      in case mRegions s lowerCaseRegionID of
           None \<Rightarrow> Inr s
         | Some region \<Rightarrow>
             (case setChances chances roll1 region of
                Inl e \<Rightarrow> Inl e
              | Inr region' \<Rightarrow>
                  regionalWeatherChanged player roll2 lowerCaseRegionID
                    (s\<lparr>mRegions := (mRegions s)(lowerCaseRegionID \<mapsto> region')\<rparr>)))"

definition playerTeleported :: "Player \<Rightarrow> int \<Rightarrow> WeatherManager \<Rightarrow> WeatherManager" where
  "playerTeleported player roll s =
     (if isExterior player
      then
        (let playerRegion = lowerCase (cellRegion player)
         in case mRegions s playerRegion of
              None \<Rightarrow> s
            | Some region \<Rightarrow>
                if playerRegion \<noteq> mCurrentRegion s
                then
                  (case getWeather roll region of
                     (weatherID, region') \<Rightarrow>
                       forceWeather weatherID
                         (s\<lparr>mCurrentRegion := playerRegion,
                            mRegions := (mRegions s)(playerRegion \<mapsto> region')\<rparr>))
                else s)
      else s)"

text \<open>\<open>std::map::insert\<close> keeps the entry of a key that is present.\<close>

definition insertRegion ::
  "string \<Rightarrow> RegionWeather \<Rightarrow> (string \<rightharpoonup> RegionWeather) \<Rightarrow> (string \<rightharpoonup> RegionWeather)"
where
  "insertRegion regionID region m = (if m regionID = None then m(regionID \<mapsto> region) else m)"

definition importRegions :: "WeatherManager \<Rightarrow> WeatherManager" where
  "importRegions s =
     s\<lparr>mRegions :=
         foldl (\<lambda>m r. insertRegion (lowerCase (mId r)) (RegionWeather_of_Region r) m)
           (mRegions s) (mStore s)\<rparr>"

definition oldestCompatibleSaveFormat :: int where
  "oldestCompatibleSaveFormat = 2"

text \<open>
  \<open>readRecord(reader, type)\<close>. \<open>REC_WTHR\<close> is declared outside src/ and is an argument;
  \<open>format\<close> is \<open>reader.getFormat()\<close> and \<open>state\<close> what \<open>state.load(reader)\<close> reads.
\<close>

definition readRecord ::
  "nat \<Rightarrow> int \<Rightarrow> WeatherState \<Rightarrow> nat \<Rightarrow> WeatherManager \<Rightarrow> bool \<times> WeatherManager"
where
  "readRecord REC_WTHR format state type s =
     (if REC_WTHR = type
      then
        (if format < oldestCompatibleSaveFormat
         then (True, s)
         else
           (let s1 = s\<lparr>mCurrentRegion := wsCurrentRegion state,
                        mTimePassed := wsTimePassed state,
                        mFastForward := wsFastForward state,
                        mWeatherUpdateTime := wsWeatherUpdateTime state,
                        mTransitionFactor := wsTransitionFactor state,
                        mCurrentWeather := wsCurrentWeather state,
                        mNextWeather := wsNextWeather state,
                        mQueuedWeather := wsQueuedWeather state,
                        mRegions := Map.empty\<rparr>
            in if wsRegions state = []
               then (True, importRegions s1)
               else (True,
                     s1\<lparr>mRegions :=
                          foldl (\<lambda>m (regionID, st). insertRegion regionID (RegionWeather_of_State st) m)
                            (mRegions s1) (wsRegions state)\<rparr>)))
      else (False, s))"

definition clear :: "WeatherManager \<Rightarrow> WeatherManager" where
  "clear s =
     importRegions
       ((forceWeather 0 (s\<lparr>mCurrentRegion := [], mTimePassed := 0, mWeatherUpdateTime := 0\<rparr>))
          \<lparr>mRegions := Map.empty\<rparr>)"

definition updateWeatherTime :: "WeatherManager \<Rightarrow> bool \<times> WeatherManager" where
  "updateWeatherTime s =
     (let s1 = s\<lparr>mWeatherUpdateTime := mWeatherUpdateTime s - mTimePassed s, mTimePassed := 0\<rparr>
      in if mWeatherUpdateTime s1 \<le> 0
         then (True,
               s1\<lparr>mRegions := (\<lambda>regionID. map_option (setWeather invalidWeatherID) (mRegions s1 regionID)),
                  mWeatherUpdateTime := mWeatherUpdateTime s1 + mHoursBetweenWeatherChanges s1\<rparr>)
         else (False, s1))"

definition updateWeatherRegion :: "string \<Rightarrow> WeatherManager \<Rightarrow> bool \<times> WeatherManager" where
  "updateWeatherRegion playerRegion s =
     (if playerRegion \<noteq> [] \<and> playerRegion \<noteq> mCurrentRegion s
      then (True, s\<lparr>mCurrentRegion := playerRegion\<rparr>)
      else (False, s))"

text \<open>
  \<open>mWeatherSettings[weatherID].calculateThunder(...)\<close>: the call changes the weather in
  its place in the vector.
\<close>

definition thunderAt ::
  "int \<Rightarrow> real \<Rightarrow> real \<Rightarrow> bool \<Rightarrow> real \<Rightarrow> nat \<Rightarrow> WeatherManager
     \<Rightarrow> error + (real \<times> string list \<times> WeatherManager)"
where
  "thunderAt weatherID ratio elapsedSeconds isPaused prob distance s =
     (case weatherAt s weatherID of
        Inl e \<Rightarrow> Inl e
      | Inr w \<Rightarrow>
          (case calculateThunder ratio elapsedSeconds isPaused prob distance w of
             (flash, sounds, w') \<Rightarrow>
               Inr (flash, sounds,
                    s\<lparr>mWeatherSettings :=
                        (mWeatherSettings s)\<lparr>elems := (elems (mWeatherSettings s))[nat weatherID := w']\<rparr>\<rparr>)))"

text \<open>
  \<open>calculateWeatherResult\<close>, without the values it writes to \<open>mResult\<close>: the reads of
  \<open>mWeatherSettings\<close> by \<open>calculateResult\<close> and \<open>calculateTransitionResult\<close>, and the
  thunder of the current and of the next weather. The result is the flash, the sounds
  played and the manager. \<open>(prob1, distance1)\<close> are the draws of the first call of
  \<open>calculateThunder\<close>, \<open>(prob2, distance2)\<close> those of the second.
\<close>

definition calculateWeatherResult ::
  "real \<Rightarrow> bool \<Rightarrow> real \<Rightarrow> nat \<Rightarrow> real \<Rightarrow> nat \<Rightarrow> WeatherManager
     \<Rightarrow> error + (real \<times> string list \<times> WeatherManager)"
where
  "calculateWeatherResult elapsedSeconds isPaused prob1 distance1 prob2 distance2 s =
     (if \<not> inTransition s
      then thunderAt (mCurrentWeather s) 1 elapsedSeconds isPaused prob1 distance1 s
      else
        (case weatherAt s (mCurrentWeather s) of
           Inl e \<Rightarrow> Inl e
         | Inr _ \<Rightarrow>
        (case weatherAt s (mNextWeather s) of
           Inl e \<Rightarrow> Inl e
         | Inr _ \<Rightarrow>
        (case thunderAt (mCurrentWeather s) (mTransitionFactor s) elapsedSeconds isPaused
                prob1 distance1 s of
           Inl e \<Rightarrow> Inl e
         | Inr (currentFlash, sounds1, s1) \<Rightarrow>
        (case thunderAt (mNextWeather s1) (1 - mTransitionFactor s1) elapsedSeconds isPaused
                prob2 distance2 s1 of
           Inl e \<Rightarrow> Inl e
         | Inr (nextFlash, sounds2, s2) \<Rightarrow>
             Inr (currentFlash + nextFlash, sounds1 @ sounds2, s2))))))"

text \<open>
  \<open>update(duration, paused)\<close>, as far as it writes the fields of the record above: the
  block under \<open>if(!paused)\<close>, the early return inside a cell that is not exterior, and
  \<open>calculateWeatherResult\<close>. The rest of the function writes the wind and storm values,
  the renderer and the ambient sound. \<open>roll\<close> is the draw of \<open>getWeather\<close>. The result is
  the thunder sounds played and the manager.
\<close>

definition update ::
  "real \<Rightarrow> bool \<Rightarrow> Player \<Rightarrow> int \<Rightarrow> real \<Rightarrow> nat \<Rightarrow> real \<Rightarrow> nat \<Rightarrow> WeatherManager
     \<Rightarrow> error + (string list \<times> WeatherManager)"
where
  "update duration paused player roll prob1 distance1 prob2 distance2 s =
     (case
        (if \<not> paused
         then
           (let playerRegion = lowerCase (cellRegion player)
            in case updateWeatherTime s of
                 (timeUp, s1) \<Rightarrow>
                   (case (if timeUp then (True, s1) else updateWeatherRegion playerRegion s1) of
                      (changed, s2) \<Rightarrow>
                        (case
                           (if changed
                            then
                              (case mRegions s2 (mCurrentRegion s2) of
                                 None \<Rightarrow> Inr s2
                               | Some region \<Rightarrow>
                                   (case getWeather roll region of
                                      (weatherID, region') \<Rightarrow>
                                        addWeatherTransition weatherID
                                          (s2\<lparr>mRegions := (mRegions s2)(mCurrentRegion s2 \<mapsto> region')\<rparr>)))
                            else Inr s2)
                         of
                           Inl e \<Rightarrow> Inl e
                         | Inr s3 \<Rightarrow> updateWeatherTransitions duration s3)))
         else Inr s)
      of
        Inl e \<Rightarrow> Inl e
      | Inr s4 \<Rightarrow>
          (if \<not> isExterior player
           then Inr ([], s4)
           else
             (case calculateWeatherResult duration paused prob1 distance1 prob2 distance2 s4 of
                Inl e \<Rightarrow> Inl e
              | Inr (flash, sounds, s5) \<Rightarrow> Inr (sounds, s5))))"

text \<open>
  The constructor of \<open>WeatherManager\<close>: \<open>weathers\<close> are the ten weathers that the calls of
  \<open>addWeather\<close> build from the fallback values, in their order; the four sun values and
  \<open>hoursBetweenWeatherChanges\<close> are fallback values too.
\<close>

definition WeatherManager_new ::
  "Weather list \<Rightarrow> ESM_Region list \<Rightarrow> real \<Rightarrow> real \<Rightarrow> real \<Rightarrow> real \<Rightarrow> real \<Rightarrow> WeatherManager"
where
  "WeatherManager_new weathers store sunriseTime sunsetTime sunriseDuration sunsetDuration
       hoursBetweenWeatherChanges =
     forceWeather 0
       (importRegions
          \<lparr>mStore = store,
           mTimeSettings = makeTimeSettings sunriseTime sunsetTime sunriseDuration sunsetDuration,
           mHoursBetweenWeatherChanges = hoursBetweenWeatherChanges,
           mWeatherSettings = \<lparr>elems = weathers, capacity = 10\<rparr>,
           mCurrentRegion = [],
           mTimePassed = 0,
           mFastForward = False,
           mWeatherUpdateTime = hoursBetweenWeatherChanges,
           mTransitionFactor = 0,
           mCurrentWeather = 0,
           mNextWeather = 0,
           mQueuedWeather = 0,
           mRegions = Map.empty\<rparr>)"

subsection \<open>The invariant of the transition state\<close>

definition validWeatherID :: "WeatherManager \<Rightarrow> int \<Rightarrow> bool" where
  "validWeatherID s weatherID = (0 \<le> weatherID \<and> nat weatherID < vsize (mWeatherSettings s))"

definition validOrSentinel :: "WeatherManager \<Rightarrow> int \<Rightarrow> bool" where
  "validOrSentinel s weatherID = (weatherID = invalidWeatherID \<or> validWeatherID s weatherID)"

definition transitionInvariant :: "WeatherManager \<Rightarrow> bool" where
  "transitionInvariant s =
     ((mNextWeather s = invalidWeatherID \<longleftrightarrow> \<not> inTransition s) \<and>
      (mQueuedWeather s \<noteq> invalidWeatherID \<longrightarrow> mNextWeather s \<noteq> invalidWeatherID) \<and>
      vsize (mWeatherSettings s) = 10 \<and>
      validOrSentinel s (mCurrentWeather s) \<and>
      validOrSentinel s (mNextWeather s) \<and>
      validOrSentinel s (mQueuedWeather s))"

text \<open>The same invariant on a persisted record, for a manager with \<open>n\<close> weathers.\<close>

definition stateInvariant :: "nat \<Rightarrow> WeatherState \<Rightarrow> bool" where
  "stateInvariant n state =
     ((wsQueuedWeather state \<noteq> invalidWeatherID \<longrightarrow> wsNextWeather state \<noteq> invalidWeatherID) \<and>
      (\<forall>weatherID \<in> {wsCurrentWeather state, wsNextWeather state, wsQueuedWeather state}.
         weatherID = invalidWeatherID \<or> (0 \<le> weatherID \<and> nat weatherID < n)))"

text \<open>The calls that the invariant is stated for, each with its arguments.\<close>

datatype call =
    ForceWeather int
  | AddWeatherTransition int
  | UpdateWeatherTransitions real
  | ChangeWeather Player int string nat
  | ReadRecord nat int WeatherState nat
  | Update real bool Player int real nat real nat

fun perform :: "call \<Rightarrow> WeatherManager \<Rightarrow> error + WeatherManager" where
  "perform (ForceWeather weatherID) s = Inr (forceWeather weatherID s)"
| "perform (AddWeatherTransition weatherID) s = addWeatherTransition weatherID s"
| "perform (UpdateWeatherTransitions elapsed) s = updateWeatherTransitions elapsed s"
| "perform (ChangeWeather player roll regionID weatherID) s =
     changeWeather player roll regionID weatherID s"
| "perform (ReadRecord REC_WTHR format state type) s =
     Inr (snd (readRecord REC_WTHR format state type s))"
| "perform (Update duration paused player roll prob1 distance1 prob2 distance2) s =
     (case update duration paused player roll prob1 distance1 prob2 distance2 s of
        Inl e \<Rightarrow> Inl e
      | Inr (sounds, s') \<Rightarrow> Inr s')"

text \<open>
  The states reached from a constructed manager by any of the calls, with any arguments,
  as long as no call fails.
\<close>

inductive reachable :: "WeatherManager \<Rightarrow> bool" where
  constructed:
    "length weathers = 10 \<Longrightarrow>
     reachable (WeatherManager_new weathers store sunrise sunset sunriseDuration sunsetDuration hours)"
| called:
    "reachable s \<Longrightarrow> perform c s = Inr s' \<Longrightarrow> reachable s'"

text \<open>
  What a call must satisfy to keep the invariant: \<open>forceWeather\<close> gets a valid weather id,
  and a record that \<open>readRecord\<close> loads satisfies the invariant itself.
\<close>

fun admissible :: "call \<Rightarrow> WeatherManager \<Rightarrow> bool" where
  "admissible (ForceWeather weatherID) s = validWeatherID s weatherID"
| "admissible (ReadRecord REC_WTHR format state type) s =
     (REC_WTHR = type \<and> \<not> format < oldestCompatibleSaveFormat
        \<longrightarrow> stateInvariant (vsize (mWeatherSettings s)) state)"
| "admissible _ s = True"

inductive reachable_admissibly :: "WeatherManager \<Rightarrow> bool" where
  constructed_adm:
    "length weathers = 10 \<Longrightarrow>
     reachable_admissibly
       (WeatherManager_new weathers store sunrise sunset sunriseDuration sunsetDuration hours)"
| called_adm:
    "reachable_admissibly s \<Longrightarrow> admissible c s \<Longrightarrow> perform c s = Inr s' \<Longrightarrow>
     reachable_admissibly s'"

subsection \<open>A concrete manager\<close>

text \<open>
  A weather with the given transition delta, a store of two regions, the second with a
  chance table of zeros, and the manager constructed from ten such weathers with the
  sun times \<open>6\<close> and \<open>18\<close> and the durations \<open>2\<close> and \<open>2\<close>.
\<close>

definition exampleWeather :: "real \<Rightarrow> Weather" where
  "exampleWeather delta =
     \<lparr>mCloudTexture = ''tx_sky_clear.dds'',
      mSkyColor = \<lparr>mSunriseValue = (0, 0, 0, 1), mDayValue = (0, 0, 0, 1), mSunsetValue = (0, 0, 0, 1), mNightValue = (0, 0, 0, 1)\<rparr>,
      mFogColor = \<lparr>mSunriseValue = (0, 0, 0, 1), mDayValue = (0, 0, 0, 1), mSunsetValue = (0, 0, 0, 1), mNightValue = (0, 0, 0, 1)\<rparr>,
      mAmbientColor = \<lparr>mSunriseValue = (0, 0, 0, 1), mDayValue = (0, 0, 0, 1), mSunsetValue = (0, 0, 0, 1), mNightValue = (0, 0, 0, 1)\<rparr>,
      mSunColor = \<lparr>mSunriseValue = (0, 0, 0, 1), mDayValue = (0, 0, 0, 1), mSunsetValue = (0, 0, 0, 1), mNightValue = (0, 0, 0, 1)\<rparr>,
      mLandFogDepth = \<lparr>mSunriseValue = 1, mDayValue = 1, mSunsetValue = 1, mNightValue = 2\<rparr>,
      mSunDiscSunsetColor = (1, 1, 1, 1),
      mWindSpeed = 0.1,
      mCloudSpeed = 1.25,
      mGlareView = 1,
      mIsStorm = False,
      mRainSpeed = 575,
      mRainFrequency = 0,
      mParticleEffect = [],
      mRainEffect = [],
      mAmbientLoopSoundID = [],
      mTransitionDelta = delta,
      mCloudsMaximumPercent = 1,
      mThunderFrequency = 1,
      mThunderThreshold = 0.5,
      mThunderSoundID = [''Thunder0'', ''Thunder1'', ''Thunder2'', ''Thunder3''],
      mFlashDecrement = 4,
      mFlashBrightness = 0.75\<rparr>"

definition exampleStore :: "ESM_Region list" where
  "exampleStore =
     [\<lparr>mId = ''Ascadian Isles Region'',
       mData = \<lparr>mClear = 45, mCloudy = 45, mFoggy = 5, mOvercast = 5, mRain = 0, mThunder = 0,
                 mAsh = 0, mBlight = 0, mA = 0, mB = 0\<rparr>\<rparr>,
      \<lparr>mId = ''Empty Region'',
       mData = \<lparr>mClear = 0, mCloudy = 0, mFoggy = 0, mOvercast = 0, mRain = 0, mThunder = 0,
                 mAsh = 0, mBlight = 0, mA = 0, mB = 0\<rparr>\<rparr>]"

definition exampleManager :: WeatherManager where
  "exampleManager =
     WeatherManager_new (replicate 10 (exampleWeather 0.25)) exampleStore 6 18 2 2 20"

section \<open>Properties\<close>

subsection \<open>The weighted selection of a regional weather\<close>

lemma chooseLoop_first:
  "i \<le> length tbl \<Longrightarrow> sm = sum_list (take i tbl) \<Longrightarrow> (\<forall>j<i. prefixSum tbl j < chance) \<Longrightarrow>
   chooseLoop chance tbl sm i \<le> length tbl \<and>
   (chooseLoop chance tbl sm i < length tbl \<longrightarrow> chance \<le> prefixSum tbl (chooseLoop chance tbl sm i)) \<and>
   (\<forall>j < chooseLoop chance tbl sm i. prefixSum tbl j < chance)"
proof (induction chance tbl sm i rule: chooseLoop.induct)
  case (1 chance tbl sm i)
  show ?case
  proof (cases "i < length tbl")
    case False
    then have "chooseLoop chance tbl sm i = i"
      by (subst chooseLoop.simps) simp
    with False "1.prems" show ?thesis by simp
  next
    case True
    then have ps: "prefixSum tbl i = sm + tbl ! i"
      using "1.prems"(2) by (simp add: prefixSum_def take_Suc_conv_app_nth)
    show ?thesis
    proof (cases "chance \<le> sm + tbl ! i")
      case le: True
      then have "chooseLoop chance tbl sm i = i"
        using True by (subst chooseLoop.simps) (simp add: Let_def)
      with le True ps "1.prems" show ?thesis by simp
    next
      case gt: False
      have step: "chooseLoop chance tbl sm i = chooseLoop chance tbl (sm + tbl ! i) (Suc i)"
        using True gt by (subst chooseLoop.simps) (simp add: Let_def)
      have pre: "\<forall>j<Suc i. prefixSum tbl j < chance"
        using "1.prems"(3) gt ps by (auto simp: less_Suc_eq)
      have "sm + tbl ! i = sum_list (take (Suc i) tbl)"
        using ps by (simp add: prefixSum_def)
      with "1.IH"[OF True refl gt _ _ pre] True step show ?thesis
        by simp
    qed
  qed
qed

lemma chooseNewWeather_mChances: "mChances (chooseNewWeather roll rw) = mChances rw"
  by (simp add: chooseNewWeather_def Let_def)

lemma chooseLoop_none:
  "\<forall>j < length tbl. prefixSum tbl j < chance \<Longrightarrow> chooseLoop chance tbl 0 0 = length tbl"
proof -
  assume none: "\<forall>j < length tbl. prefixSum tbl j < chance"
  let ?r = "chooseLoop chance tbl 0 0"
  have spec: "?r \<le> length tbl \<and> (?r < length tbl \<longrightarrow> chance \<le> prefixSum tbl ?r)"
    using chooseLoop_first[of 0 tbl 0 chance] by simp
  have "\<not> ?r < length tbl"
  proof
    assume lt: "?r < length tbl"
    with spec have "chance \<le> prefixSum tbl ?r" by simp
    moreover from none lt have "prefixSum tbl ?r < chance" by simp
    ultimately show False by simp
  qed
  with spec show ?thesis by simp
qed

lemma prefixSum_le_total:
  assumes "\<forall>c \<in> set tbl. 0 \<le> c"
  shows "prefixSum tbl j \<le> sum_list tbl"
proof -
  have "sum_list tbl = sum_list (take (Suc j) tbl) + sum_list (drop (Suc j) tbl)"
    by (metis append_take_drop_id sum_list.append)
  moreover have "0 \<le> sum_list (drop (Suc j) tbl)"
    using assms by (intro sum_list_nonneg) (auto dest: in_set_dropD)
  ultimately show ?thesis by (simp add: prefixSum_def)
qed

text \<open>
  C5. For every chance table and every drawn value \<open>chance = roll + 1\<close> from \<open>1\<close> to
  \<open>100\<close> that some prefix sum of the table reaches, \<open>chooseNewWeather\<close> sets the selected
  weather id to the first index at which the prefix sum is at least \<open>chance\<close>.
\<close>

theorem chooseNewWeather_first_index:
  assumes "0 \<le> roll" and "roll < 100"
    and "\<exists>i < vsize (mChances rw). roll + 1 \<le> prefixSum (elems (mChances rw)) i"
  shows "\<exists>i. mWeather (chooseNewWeather roll rw) = int i \<and>
             i < vsize (mChances rw) \<and>
             roll + 1 \<le> prefixSum (elems (mChances rw)) i \<and>
             (\<forall>j<i. prefixSum (elems (mChances rw)) j < roll + 1)"
proof -
  let ?tbl = "elems (mChances rw)"
  let ?r = "chooseLoop (roll + 1) ?tbl 0 0"
  have spec: "?r \<le> length ?tbl \<and> (?r < length ?tbl \<longrightarrow> roll + 1 \<le> prefixSum ?tbl ?r) \<and>
      (\<forall>j < ?r. prefixSum ?tbl j < roll + 1)"
    by (rule chooseLoop_first) simp_all
  from assms(3) obtain k where k: "k < length ?tbl" "roll + 1 \<le> prefixSum ?tbl k"
    by (auto simp: vsize_def)
  have "?r < length ?tbl"
  proof (rule ccontr)
    assume "\<not> ?r < length ?tbl"
    with spec k(1) have "prefixSum ?tbl k < roll + 1" by auto
    with k(2) show False by simp
  qed
  with spec show ?thesis
    by (intro exI[of _ ?r]) (simp add: chooseNewWeather_def Let_def vsize_def)
qed

theorem chooseNewWeather_first_index_witness:
  "(0::int) \<le> 29 \<and> (29::int) < 100 \<and>
   (\<exists>i < vsize (mChances \<lparr>mWeather = - 1, mChances = vector_of [10, 20, 30, 40, 0, 0, 0, 0, 0, 0]\<rparr>).
      29 + 1 \<le> prefixSum (elems (mChances \<lparr>mWeather = - 1, mChances = vector_of [10, 20, 30, 40, 0, 0, 0, 0, 0, 0]\<rparr>)) i) \<and>
   mWeather (chooseNewWeather 29 \<lparr>mWeather = - 1, mChances = vector_of [10, 20, 30, 40, 0, 0, 0, 0, 0, 0]\<rparr>) = 1"
proof -
  let ?rw = "\<lparr>mWeather = - 1, mChances = vector_of [10, 20, 30, 40, 0, 0, 0, 0, 0, 0]\<rparr>"
  have h: "\<exists>i < vsize (mChances ?rw). 29 + 1 \<le> prefixSum (elems (mChances ?rw)) i"
    by (intro exI[of _ 1]) (simp add: vsize_def vector_of_def prefixSum_def)
  from chooseNewWeather_first_index[of 29 ?rw, OF _ _ h]
  obtain i where i: "mWeather (chooseNewWeather 29 ?rw) = int i" "i < vsize (mChances ?rw)"
    "29 + 1 \<le> prefixSum (elems (mChances ?rw)) i" "\<forall>j<i. prefixSum (elems (mChances ?rw)) j < 29 + 1"
    by auto
  have "\<not> 1 < i"
  proof
    assume "1 < i"
    with i(4) have "prefixSum (elems (mChances ?rw)) 1 < 29 + 1" by blast
    then show False by (simp add: vector_of_def prefixSum_def)
  qed
  moreover have "i \<noteq> 0"
  proof
    assume "i = 0"
    with i(3) show False by (simp add: vector_of_def prefixSum_def)
  qed
  ultimately have "i = 1" by simp
  with i(1) h show ?thesis by simp
qed

text \<open>
  When the entries of the table are not negative and sum to less than \<open>100\<close> and less
  than the drawn value, the loop of \<open>chooseNewWeather\<close> ends by its condition, with \<open>i\<close>
  the size of the table.
\<close>

lemma chooseNewWeather_fallthrough:
  assumes "\<forall>c \<in> set (elems (mChances rw)). 0 \<le> c"
    and "sum_list (elems (mChances rw)) < 100"
    and "sum_list (elems (mChances rw)) < roll + 1"
  shows "mWeather (chooseNewWeather roll rw) = int (vsize (mChances rw))"
proof -
  have "\<forall>j < length (elems (mChances rw)). prefixSum (elems (mChances rw)) j < roll + 1"
    using prefixSum_le_total[OF assms(1)] assms(3) by (meson le_less_trans)
  then show ?thesis
    by (simp add: chooseNewWeather_def Let_def vsize_def chooseLoop_none)
qed

text \<open>
  C6. When the chance table sums to less than the drawn value, the last index of the
  table is to be selected. \<open>chooseNewWeather\<close> does not do so: on a table of ten entries
  that sum to \<open>90\<close> and the draw \<open>95\<close> (\<open>roll = 94\<close>) it stores the id \<open>10\<close>, the size of
  the table, where the last index is \<open>9\<close>. The code itself takes such an id as no
  weather: the test of \<open>setChances\<close> finds it out of the table, and the assertion of
  \<open>addWeatherTransition\<close> fails on it.
\<close>

theorem chooseNewWeather_not_last_index:
  "sum_list (elems (mChances \<lparr>mWeather = - 1, mChances = vector_of [10, 10, 10, 10, 10, 10, 10, 10, 10, 0]\<rparr>)) < 100 \<and>
   sum_list (elems (mChances \<lparr>mWeather = - 1, mChances = vector_of [10, 10, 10, 10, 10, 10, 10, 10, 10, 0]\<rparr>)) < 94 + 1 \<and>
   vsize (mChances \<lparr>mWeather = - 1, mChances = vector_of [10, 10, 10, 10, 10, 10, 10, 10, 10, 0]\<rparr>) - 1 = 9 \<and>
   mWeather (chooseNewWeather 94 \<lparr>mWeather = - 1, mChances = vector_of [10, 10, 10, 10, 10, 10, 10, 10, 10, 0]\<rparr>) = 10 \<and>
   weatherOutOfTable (chooseNewWeather 94 \<lparr>mWeather = - 1, mChances = vector_of [10, 10, 10, 10, 10, 10, 10, 10, 10, 0]\<rparr>) \<and>
   addWeatherTransition
     (mWeather (chooseNewWeather 94 \<lparr>mWeather = - 1, mChances = vector_of [10, 10, 10, 10, 10, 10, 10, 10, 10, 0]\<rparr>))
     exampleManager = Inl AssertionFailed"
  by (simp add: chooseNewWeather_def vector_of_def vsize_def Let_def chooseLoop.simps
      weatherOutOfTable_def addWeatherTransition_def exampleManager_def WeatherManager_new_def
      forceWeather_def importRegions_def)

subsection \<open>The copy loop of setChances\<close>

lemma writeChances_in_bounds:
  "i + length cs \<le> vsize v \<Longrightarrow>
   writeChances cs i v = Inr (v\<lparr>elems := take i (elems v) @ cs @ drop (i + length cs) (elems v)\<rparr>)"
proof (induction cs arbitrary: i v)
  case Nil
  then show ?case by simp
next
  case (Cons c cs)
  then have lt: "i < length (elems v)" by (simp add: vsize_def)
  have "Suc i + length cs \<le> vsize (v\<lparr>elems := (elems v)[i := c]\<rparr>)"
    using Cons.prems by (simp add: vsize_def)
  from Cons.IH[OF this] lt show ?case
    by (simp add: vset_def vsize_def upd_conv_take_nth_drop take_Suc_conv_app_nth add.commute)
qed

lemma writeChances_out_of_bounds:
  "vsize v < i + length cs \<Longrightarrow> i \<le> vsize v \<Longrightarrow> writeChances cs i v = Inl OutOfBounds"
proof (induction cs arbitrary: i v)
  case Nil
  then show ?case by simp
next
  case (Cons c cs)
  show ?case
  proof (cases "i < vsize v")
    case False
    then show ?thesis by (simp add: vset_def)
  next
    case True
    have "vsize (v\<lparr>elems := (elems v)[i := c]\<rparr>) = vsize v"
      by (simp add: vsize_def)
    with Cons.prems True
    have "writeChances cs (Suc i) (v\<lparr>elems := (elems v)[i := c]\<rparr>) = Inl OutOfBounds"
      by (intro Cons.IH) simp_all
    with True show ?thesis by (simp add: vset_def)
  qed
qed

lemma vsize_reserve: "vsize (reserve n v) = vsize v"
  by (simp add: reserve_def vsize_def)

lemma elems_reserve: "elems (reserve n v) = elems v"
  by (simp add: reserve_def)


lemma writeChances_result:
  "writeChances chances 0 v =
     (if length chances \<le> vsize v
      then Inr (v\<lparr>elems := chances @ drop (length chances) (elems v)\<rparr>)
      else Inl OutOfBounds)"
  using writeChances_in_bounds[of 0 chances v] writeChances_out_of_bounds[of v 0 chances]
  by simp

text \<open>
  C10. \<open>setChances\<close> writes \<open>chances[i]\<close> into slot \<open>i\<close> of the stored table for every
  \<open>i\<close> below the length of \<open>chances\<close>. All writes are in bounds exactly when \<open>chances\<close> is
  not longer than the stored table: \<open>reserve\<close> leaves the size of the table as it is, and
  for a longer list a write is past the end of the table, which happens for some input.
\<close>

theorem setChances_bounds:
  "(setChances chances roll rw = Inl OutOfBounds \<longleftrightarrow> vsize (mChances rw) < length chances) \<and>
   (length chances \<le> vsize (mChances rw) \<longrightarrow>
      (\<exists>rw'. setChances chances roll rw = Inr rw' \<and>
             elems (mChances rw') = chances @ drop (length chances) (elems (mChances rw)))) \<and>
   vsize (reserve (length chances) (mChances rw)) = vsize (mChances rw) \<and>
   (\<exists>chances' roll' rw'. setChances chances' roll' rw' = Inl OutOfBounds)"
proof (intro conjI)
  show oob: "setChances chances roll rw = Inl OutOfBounds \<longleftrightarrow> vsize (mChances rw) < length chances"
    by (simp add: setChances_def writeChances_result vsize_reserve Let_def)
  show "length chances \<le> vsize (mChances rw) \<longrightarrow>
      (\<exists>rw'. setChances chances roll rw = Inr rw' \<and>
             elems (mChances rw') = chances @ drop (length chances) (elems (mChances rw)))"
    by (simp add: setChances_def writeChances_result Let_def chooseNewWeather_mChances)
  show "vsize (reserve (length chances) (mChances rw)) = vsize (mChances rw)"
    by (rule vsize_reserve)
  have "setChances [1, 2] 0 \<lparr>mWeather = 0, mChances = vector_of [100]\<rparr> = Inl OutOfBounds"
    by (simp add: setChances_def writeChances_result vsize_def elems_reserve vector_of_def Let_def)
  then show "\<exists>chances' roll' rw'. setChances chances' roll' rw' = Inl OutOfBounds"
    by blast
qed

theorem setChances_bounds_witness:
  "setChances [20, 80] 0 \<lparr>mWeather = 0, mChances = vector_of [50, 50, 0]\<rparr> =
     Inr \<lparr>mWeather = 0, mChances = vector_of [20, 80, 0]\<rparr> \<and>
   setChances [25, 25, 25, 25] 0 \<lparr>mWeather = 0, mChances = vector_of [50, 50, 0]\<rparr> = Inl OutOfBounds"
proof -
  let ?rw = "\<lparr>mWeather = 0, mChances = vector_of [50, 50, 0]\<rparr>"
  have a: "length [20, 80 :: int] \<le> vsize (mChances ?rw)"
    by (simp add: vsize_def vector_of_def)
  have b: "vsize (mChances ?rw) < length [25, 25, 25, 25 :: int]"
    by (simp add: vsize_def vector_of_def)
  from setChances_bounds[of "[20, 80]" 0 ?rw] a
  obtain rw' where rw': "setChances [20, 80] 0 ?rw = Inr rw'"
    "elems (mChances rw') = [20, 80] @ drop (length [20, 80 :: int]) (elems (mChances ?rw))"
    by blast
  have c: "setChances [20, 80] 0 ?rw = Inr \<lparr>mWeather = 0, mChances = vector_of [20, 80, 0]\<rparr>"
    by (simp add: setChances_def writeChances_result vsize_def vector_of_def Let_def weatherOutOfTable_def)
  from setChances_bounds[of "[25, 25, 25, 25]" 0 ?rw] b
  have "setChances [25, 25, 25, 25] 0 ?rw = Inl OutOfBounds" by blast
  with c show ?thesis by simp
qed

subsection \<open>Thunder while paused\<close>

lemma calculateThunder_paused_step:
  "calculateThunder ratio elapsed True prob distance w = (mFlashBrightness w, [], w)"
  by (simp add: calculateThunder_def)

text \<open>
  C8. With \<open>isPaused\<close> set, \<open>calculateThunder\<close> returns the flash brightness the weather
  held before the call, leaves the weather as it was and plays no sound, whatever the
  transition ratio, the elapsed seconds and the draws are; so does every run of such calls.
\<close>

theorem calculateThunder_paused:
  "calculateThunder transitionRatio elapsedSeconds True prob distance w = (mFlashBrightness w, [], w) \<and>
   (allPaused cs \<longrightarrow>
      calculateThunder_calls cs w = (replicate (length cs) (mFlashBrightness w), [], w))"
proof (intro conjI impI)
  show "calculateThunder transitionRatio elapsedSeconds True prob distance w = (mFlashBrightness w, [], w)"
    by (rule calculateThunder_paused_step)
next
  assume "allPaused cs"
  then show "calculateThunder_calls cs w = (replicate (length cs) (mFlashBrightness w), [], w)"
    by (induction cs) (auto simp: allPaused_def calculateThunder_paused_step)
qed

theorem calculateThunder_paused_witness:
  "allPaused [(1, 0.5, True, 0, 0), (0.2, 3, True, 0.9, 2)] \<and>
   calculateThunder_calls [(1, 0.5, True, 0, 0), (0.2, 3, True, 0.9, 2)] (exampleWeather 0.25) =
     ([0.75, 0.75], [], exampleWeather 0.25)"
proof -
  let ?cs = "[(1, 0.5, True, 0, 0), (0.2, 3, True, 0.9, 2)] :: (real \<times> real \<times> bool \<times> real \<times> nat) list"
  have h: "allPaused ?cs" by (simp add: allPaused_def)
  have rep: "replicate (length ?cs) (mFlashBrightness (exampleWeather 0.25)) = [0.75, 0.75]"
    by (simp add: exampleWeather_def)
  from calculateThunder_paused[of 1 "0.5" 0 0 "exampleWeather 0.25" ?cs] h
  have "calculateThunder_calls ?cs (exampleWeather 0.25) =
      (replicate (length ?cs) (mFlashBrightness (exampleWeather 0.25)), [], exampleWeather 0.25)"
    by blast
  then have "calculateThunder_calls ?cs (exampleWeather 0.25) = ([0.75, 0.75], [], exampleWeather 0.25)"
    unfolding rep .
  with h show ?thesis by blast
qed

subsection \<open>The concrete manager\<close>

lemma lowerCase_examples:
  "lowerCase ''Ascadian Isles Region'' = ''ascadian isles region''"
  "lowerCase ''Empty Region'' = ''empty region''"
  "lowerCase ''ascadian isles region'' = ''ascadian isles region''"
  by code_simp+

lemma exampleManager_eq:
  "exampleManager =
     \<lparr>mStore = exampleStore,
      mTimeSettings = makeTimeSettings 6 18 2 2,
      mHoursBetweenWeatherChanges = 20,
      mWeatherSettings = \<lparr>elems = replicate 10 (exampleWeather 0.25), capacity = 10\<rparr>,
      mCurrentRegion = [],
      mTimePassed = 0,
      mFastForward = False,
      mWeatherUpdateTime = 20,
      mTransitionFactor = 0,
      mCurrentWeather = 0,
      mNextWeather = - 1,
      mQueuedWeather = - 1,
      mRegions =
        [''ascadian isles region'' \<mapsto>
           \<lparr>mWeather = - 1, mChances = \<lparr>elems = [45, 45, 5, 5, 0, 0, 0, 0, 0, 0], capacity = 10\<rparr>\<rparr>,
         ''empty region'' \<mapsto>
           \<lparr>mWeather = - 1, mChances = \<lparr>elems = [0, 0, 0, 0, 0, 0, 0, 0, 0, 0], capacity = 10\<rparr>\<rparr>]\<rparr>"
  by (simp add: exampleManager_def WeatherManager_new_def forceWeather_def importRegions_def
      exampleStore_def insertRegion_def lowerCase_examples RegionWeather_of_Region_def
      invalidWeatherID_def)

lemma lowerCase_nowhere: "lowerCase ''Nowhere'' = ''nowhere''"
  by code_simp

lemma exampleManager_fields:
  "mWeatherSettings exampleManager = \<lparr>elems = replicate 10 (exampleWeather 0.25), capacity = 10\<rparr>"
  "mCurrentWeather exampleManager = 0"
  "mNextWeather exampleManager = - 1"
  "mQueuedWeather exampleManager = - 1"
  "mFastForward exampleManager = False"
  "mTransitionFactor exampleManager = 0"
  "mCurrentRegion exampleManager = []"
  by (simp_all add: exampleManager_eq)

lemma exampleManager_regions:
  "mRegions exampleManager ''ascadian isles region'' =
     Some \<lparr>mWeather = - 1, mChances = \<lparr>elems = [45, 45, 5, 5, 0, 0, 0, 0, 0, 0], capacity = 10\<rparr>\<rparr>"
  "mRegions exampleManager ''empty region'' =
     Some \<lparr>mWeather = - 1, mChances = \<lparr>elems = [0, 0, 0, 0, 0, 0, 0, 0, 0, 0], capacity = 10\<rparr>\<rparr>"
  "mRegions exampleManager ''Ascadian Isles Region'' = None"
  "mRegions exampleManager ''nowhere'' = None"
  by (simp_all add: exampleManager_eq)

lemma exampleManager_valid: "validWeatherID exampleManager 3" "validWeatherID exampleManager 5"
  "validWeatherID exampleManager 7"
  by (simp_all add: validWeatherID_def vsize_def exampleManager_fields)

subsection \<open>The transition state machine\<close>

lemma addWeatherTransitions_queue:
  "inTransition s \<Longrightarrow> ids \<noteq> [] \<Longrightarrow>
   \<forall>i \<in> set ids. validWeatherID s i \<and> i \<noteq> mNextWeather s \<Longrightarrow>
   addWeatherTransitions ids s = Inr (s\<lparr>mQueuedWeather := last ids\<rparr>)"
proof (induction ids arbitrary: s)
  case Nil
  then show ?case by simp
next
  case (Cons i ids)
  note addWeatherTransitions.simps [simp]
  let ?s1 = "s\<lparr>mQueuedWeather := i\<rparr>"
  have first: "addWeatherTransition i s = Inr ?s1"
    using Cons.prems by (simp add: addWeatherTransition_def validWeatherID_def)
  show ?case
  proof (cases "ids = []")
    case True
    with first show ?thesis by simp
  next
    case False
    have "inTransition ?s1" using Cons.prems(1) by (simp add: inTransition_def)
    moreover have "\<forall>j \<in> set ids. validWeatherID ?s1 j \<and> j \<noteq> mNextWeather ?s1"
      using Cons.prems(3) by (simp add: validWeatherID_def)
    ultimately have "addWeatherTransitions ids ?s1 = Inr (?s1\<lparr>mQueuedWeather := last ids\<rparr>)"
      using False by (intro Cons.IH)
    with first False show ?thesis by simp
  qed
qed

text \<open>
  C1. For \<open>addWeatherTransition\<close> with a valid weather index: when no transition is in
  progress and the id differs from the current weather, afterwards \<open>next\<close> is the id and
  the transition factor is \<open>1\<close>; when a transition is in progress and the id differs from
  \<open>next\<close>, afterwards \<open>queued\<close> is the id and nothing else has changed; and after a run of
  such calls during a transition \<open>queued\<close> is the id of the last call.
\<close>

theorem addWeatherTransition_spec:
  assumes "validWeatherID s weatherID"
  shows "(mNextWeather s = invalidWeatherID \<and> weatherID \<noteq> mCurrentWeather s \<longrightarrow>
            addWeatherTransition weatherID s =
              Inr (s\<lparr>mNextWeather := weatherID, mTransitionFactor := 1\<rparr>)) \<and>
         (mNextWeather s \<noteq> invalidWeatherID \<and> weatherID \<noteq> mNextWeather s \<longrightarrow>
            addWeatherTransition weatherID s = Inr (s\<lparr>mQueuedWeather := weatherID\<rparr>)) \<and>
         (mNextWeather s \<noteq> invalidWeatherID \<and> ids \<noteq> [] \<and>
          (\<forall>i \<in> set ids. validWeatherID s i \<and> i \<noteq> mNextWeather s) \<longrightarrow>
            addWeatherTransitions ids s = Inr (s\<lparr>mQueuedWeather := last ids\<rparr>))"
  using assms
  by (auto simp: addWeatherTransition_def validWeatherID_def inTransition_def
      intro!: addWeatherTransitions_queue)

theorem addWeatherTransition_spec_witness:
  "validWeatherID exampleManager 3 \<and>
   addWeatherTransition 3 exampleManager =
     Inr (exampleManager\<lparr>mNextWeather := 3, mTransitionFactor := 1\<rparr>) \<and>
   addWeatherTransition 5 (exampleManager\<lparr>mNextWeather := 3, mTransitionFactor := 1\<rparr>) =
     Inr (exampleManager\<lparr>mNextWeather := 3, mTransitionFactor := 1, mQueuedWeather := 5\<rparr>) \<and>
   addWeatherTransitions [5, 7] (exampleManager\<lparr>mNextWeather := 3, mTransitionFactor := 1\<rparr>) =
     Inr (exampleManager\<lparr>mNextWeather := 3, mTransitionFactor := 1, mQueuedWeather := 7\<rparr>)"
proof -
  let ?s1 = "exampleManager\<lparr>mNextWeather := 3, mTransitionFactor := 1\<rparr>"
  have v: "validWeatherID exampleManager 3" by (rule exampleManager_valid)
  have v1: "validWeatherID ?s1 5" "validWeatherID ?s1 7"
    using exampleManager_valid by (simp_all add: validWeatherID_def)
  have a: "addWeatherTransition 3 exampleManager = Inr ?s1"
    using addWeatherTransition_spec[OF v, of "[]"]
    by (simp add: exampleManager_fields invalidWeatherID_def)
  have b: "addWeatherTransition 5 ?s1 = Inr (?s1\<lparr>mQueuedWeather := 5\<rparr>)"
    using addWeatherTransition_spec[OF v1(1), of "[]"]
    by (simp add: invalidWeatherID_def)
  have c: "addWeatherTransitions [5, 7] ?s1 = Inr (?s1\<lparr>mQueuedWeather := 7\<rparr>)"
    using addWeatherTransition_spec[OF v1(1), of "[5, 7]"] v1
    by (simp add: invalidWeatherID_def)
  from v a b c show ?thesis by simp
qed

text \<open>
  C2. For \<open>updateWeatherTransitions\<close> during a transition that is not fast-forwarded,
  with \<open>nextW\<close> the next weather and \<open>queuedW\<close> the queued one, if there is one: the
  transition factor is decremented by the elapsed seconds times the transition delta of
  \<open>nextW\<close>. When the result is at most \<open>0\<close>, \<open>current\<close> becomes \<open>next\<close>, \<open>queued\<close> is
  promoted into \<open>next\<close> and cleared, and the factor becomes
  \<open>1 - overshootSeconds * newDelta\<close> with \<open>overshootSeconds = - (factor / delta)\<close> when a
  weather was queued, and \<open>0\<close> otherwise.
\<close>

theorem updateWeatherTransitions_transition:
  assumes "\<not> mFastForward s" and "mNextWeather s \<noteq> invalidWeatherID"
    and "weatherAt s (mNextWeather s) = Inr nextW"
    and "mQueuedWeather s \<noteq> invalidWeatherID \<longrightarrow> weatherAt s (mQueuedWeather s) = Inr queuedW"
  shows "updateWeatherTransitions elapsedSeconds s =
     (let delta = transitionDelta nextW;
          factor = mTransitionFactor s - elapsedSeconds * delta
      in if factor \<le> 0
         then Inr (s\<lparr>mTransitionFactor :=
                       (if mQueuedWeather s \<noteq> invalidWeatherID
                        then (let overshootSeconds = - (factor / delta)
                              in 1 - (overshootSeconds * transitionDelta queuedW))
                        else 0),
                     mCurrentWeather := mNextWeather s,
                     mNextWeather := mQueuedWeather s,
                     mQueuedWeather := invalidWeatherID\<rparr>)
         else Inr (s\<lparr>mTransitionFactor := factor\<rparr>))"
proof -
  let ?delta = "transitionDelta nextW"
  let ?factor = "mTransitionFactor s - elapsedSeconds * ?delta"
  show ?thesis
  proof (cases "?factor \<le> 0")
    case False
    with assms(1-3) show ?thesis
      by (simp add: updateWeatherTransitions_def inTransition_def Let_def)
  next
    case le: True
    show ?thesis
    proof (cases "mQueuedWeather s = invalidWeatherID")
      case True
      with le assms(1-3) show ?thesis
        by (simp add: updateWeatherTransitions_def inTransition_def Let_def)
    next
      case False
      with assms(4) have q: "weatherAt s (mQueuedWeather s) = Inr queuedW" by simp
      let ?s2 = "s\<lparr>mTransitionFactor := ?factor, mCurrentWeather := mNextWeather s,
                   mNextWeather := mQueuedWeather s, mQueuedWeather := invalidWeatherID\<rparr>"
      have "weatherAt ?s2 (mQueuedWeather s) = Inr queuedW"
        using q by (simp add: weatherAt_def split: if_splits)
      with False le assms(1-3) show ?thesis
        by (simp add: updateWeatherTransitions_def inTransition_def Let_def)
    qed
  qed
qed

theorem updateWeatherTransitions_transition_witness:
  "updateWeatherTransitions 4
     (exampleManager\<lparr>mNextWeather := 3, mQueuedWeather := 5, mTransitionFactor := 0.5\<rparr>) =
   Inr (exampleManager\<lparr>mCurrentWeather := 3, mNextWeather := 5, mQueuedWeather := - 1,
                       mTransitionFactor := 0.5\<rparr>) \<and>
   updateWeatherTransitions 4 (exampleManager\<lparr>mNextWeather := 3, mTransitionFactor := 0.5\<rparr>) =
   Inr (exampleManager\<lparr>mCurrentWeather := 3, mNextWeather := - 1, mTransitionFactor := 0\<rparr>) \<and>
   updateWeatherTransitions 1 (exampleManager\<lparr>mNextWeather := 3, mTransitionFactor := 0.5\<rparr>) =
   Inr (exampleManager\<lparr>mNextWeather := 3, mTransitionFactor := 0.25\<rparr>)"
proof -
  let ?s = "exampleManager\<lparr>mNextWeather := 3, mQueuedWeather := 5, mTransitionFactor := 0.5\<rparr>"
  let ?t = "exampleManager\<lparr>mNextWeather := 3, mTransitionFactor := 0.5\<rparr>"
  let ?w = "exampleWeather 0.25"
  have td: "\<And>d. transitionDelta (exampleWeather d) = d"
    by (simp add: transitionDelta_def exampleWeather_def)
  have ws: "weatherAt ?s 3 = Inr ?w" "weatherAt ?s 5 = Inr ?w" "weatherAt ?t 3 = Inr ?w"
    by (simp_all add: weatherAt_def vget_def vsize_def exampleManager_fields)
  have a: "updateWeatherTransitions 4 ?s =
      Inr (exampleManager\<lparr>mCurrentWeather := 3, mNextWeather := 5, mQueuedWeather := - 1,
                          mTransitionFactor := 0.5\<rparr>)"
    using updateWeatherTransitions_transition[of ?s ?w ?w 4] ws
    by (simp add: exampleManager_fields invalidWeatherID_def td Let_def)
  have b: "updateWeatherTransitions 4 ?t =
      Inr (exampleManager\<lparr>mCurrentWeather := 3, mNextWeather := - 1, mTransitionFactor := 0\<rparr>)"
    using updateWeatherTransitions_transition[of ?t ?w ?w 4] ws
    by (simp add: exampleManager_fields invalidWeatherID_def td Let_def)
  have c: "updateWeatherTransitions 1 ?t =
      Inr (exampleManager\<lparr>mNextWeather := 3, mTransitionFactor := 0.25\<rparr>)"
    using updateWeatherTransitions_transition[of ?t ?w ?w 1] ws
    by (simp add: exampleManager_fields invalidWeatherID_def td Let_def)
  from a b c show ?thesis by simp
qed

text \<open>
  C3. After \<open>advanceTime\<close> with \<open>incremental = false\<close>, the next call of
  \<open>updateWeatherTransitions\<close> sets \<open>current\<close> to \<open>queued\<close> if that is set, else to \<open>next\<close>
  if that is set, and clears \<open>next\<close>, \<open>queued\<close> and the fast-forward flag, from any state.
\<close>

theorem fastForward_snaps:
  "updateWeatherTransitions elapsedSeconds (advanceTime hours False s) =
     Inr (s\<lparr>mTimePassed := mTimePassed s + hours,
            mCurrentWeather :=
              (if mQueuedWeather s \<noteq> invalidWeatherID then mQueuedWeather s
               else if mNextWeather s \<noteq> invalidWeatherID then mNextWeather s
               else mCurrentWeather s),
            mNextWeather := invalidWeatherID,
            mQueuedWeather := invalidWeatherID,
            mFastForward := False\<rparr>)"
  by (simp add: updateWeatherTransitions_def advanceTime_def Let_def)

theorem fastForward_snaps_witness:
  "updateWeatherTransitions 1
     (advanceTime 8 False
        (exampleManager\<lparr>mNextWeather := 3, mQueuedWeather := 5, mTransitionFactor := 0.5\<rparr>)) =
   Inr (exampleManager\<lparr>mTransitionFactor := 0.5, mTimePassed := 8, mCurrentWeather := 5\<rparr>) \<and>
   updateWeatherTransitions 1
     (advanceTime 8 False (exampleManager\<lparr>mNextWeather := 3, mTransitionFactor := 0.5\<rparr>)) =
   Inr (exampleManager\<lparr>mTransitionFactor := 0.5, mTimePassed := 8, mCurrentWeather := 3\<rparr>)"
proof -
  have eq: "exampleManager = exampleManager\<lparr>mNextWeather := - 1, mQueuedWeather := - 1, mFastForward := False\<rparr>"
    by (simp add: exampleManager_eq)
  have a: "updateWeatherTransitions 1
     (advanceTime 8 False
        (exampleManager\<lparr>mNextWeather := 3, mQueuedWeather := 5, mTransitionFactor := 0.5\<rparr>)) =
   Inr (exampleManager\<lparr>mTransitionFactor := 0.5, mTimePassed := 8, mCurrentWeather := 5\<rparr>)"
    using fastForward_snaps[of 1 8 "exampleManager\<lparr>mNextWeather := 3, mQueuedWeather := 5, mTransitionFactor := 0.5\<rparr>"]
    by (simp add: invalidWeatherID_def exampleManager_eq)
  have b: "updateWeatherTransitions 1
     (advanceTime 8 False (exampleManager\<lparr>mNextWeather := 3, mTransitionFactor := 0.5\<rparr>)) =
   Inr (exampleManager\<lparr>mTransitionFactor := 0.5, mTimePassed := 8, mCurrentWeather := 3\<rparr>)"
    using fastForward_snaps[of 1 8 "exampleManager\<lparr>mNextWeather := 3, mTransitionFactor := 0.5\<rparr>"]
    by (simp add: invalidWeatherID_def exampleManager_eq)
  from a b show ?thesis by simp
qed

subsection \<open>Ignored calls of changeWeather\<close>

text \<open>
  C9. \<open>changeWeather\<close> with a weather id that is not below the number of weathers, or
  with a region id that the region map does not hold (the map is keyed by the lowercase
  id, and the id is looked up in its lowercase form), raises no error and leaves the
  manager and its regions as they were.
\<close>

theorem changeWeather_ignored:
  assumes "vsize (mWeatherSettings s) \<le> weatherID \<or> mRegions s (lowerCase regionID) = None"
  shows "changeWeather player roll regionID weatherID s = Inr s"
  using assms by (auto simp: changeWeather_def Let_def)

theorem changeWeather_ignored_witness:
  "changeWeather \<lparr>isInCell = True, cellRegion = ''Ascadian Isles Region'', isExterior = True\<rparr> 0
     ''Ascadian Isles Region'' 10 exampleManager = Inr exampleManager \<and>
   changeWeather \<lparr>isInCell = True, cellRegion = ''Ascadian Isles Region'', isExterior = True\<rparr> 0
     ''Nowhere'' 3 exampleManager = Inr exampleManager"
proof -
  let ?p = "\<lparr>isInCell = True, cellRegion = ''Ascadian Isles Region'', isExterior = True\<rparr>"
  have a: "vsize (mWeatherSettings exampleManager) \<le> 10 \<or>
      mRegions exampleManager (lowerCase ''Ascadian Isles Region'') = None"
    by (simp add: vsize_def exampleManager_fields)
  have b: "vsize (mWeatherSettings exampleManager) \<le> 3 \<or>
      mRegions exampleManager (lowerCase ''Nowhere'') = None"
    by (simp add: lowerCase_nowhere exampleManager_regions)
  from changeWeather_ignored[OF a, of ?p 0] changeWeather_ignored[OF b, of ?p 0]
  show ?thesis by simp
qed

subsection \<open>binary32 rounding\<close>

lemma roundEven_of_int [simp]: "roundEven (of_int k) = k"
  by (simp add: roundEven_def)

lemma roundEven_numeral [simp]:
  "roundEven 0 = 0" "roundEven 1 = 1" "roundEven (numeral n) = numeral n"
  "roundEven (- numeral n) = - numeral n"
  using roundEven_of_int[of 0] roundEven_of_int[of 1] roundEven_of_int[of "numeral n"]
    roundEven_of_int[of "- numeral n"]
  by simp_all

lemma roundEven_bounds: "of_int \<lfloor>y\<rfloor> \<le> (of_int (roundEven y) :: real)" "roundEven y \<le> \<lfloor>y\<rfloor> + 1"
  by (simp_all add: roundEven_def Let_def)

lemma roundEven_mono: "x \<le> y \<Longrightarrow> roundEven x \<le> roundEven y"
proof -
  assume le: "x \<le> y"
  have fl: "\<lfloor>x\<rfloor> \<le> \<lfloor>y\<rfloor>" using le by (rule floor_mono)
  show ?thesis
  proof (cases "\<lfloor>x\<rfloor> = \<lfloor>y\<rfloor>")
    case True
    with le show ?thesis by (auto simp: roundEven_def Let_def)
  next
    case False
    with fl have "\<lfloor>x\<rfloor> + 1 \<le> \<lfloor>y\<rfloor>" by simp
    moreover have "roundEven x \<le> \<lfloor>x\<rfloor> + 1" by (rule roundEven_bounds)
    moreover have "\<lfloor>y\<rfloor> \<le> roundEven y" using roundEven_bounds(1)[of y] by simp
    ultimately show ?thesis by linarith
  qed
qed

lemma expoSearch_range: "e - int n \<le> expoSearch n e a \<and> expoSearch n e a \<le> e"
proof (induction n arbitrary: e)
  case 0
  show ?case by simp
next
  case (Suc n)
  from Suc.IH[of "e - 1"] show ?case by auto
qed

lemma expoSearch_upper: "expoSearch n e a < e \<Longrightarrow> a < 2 powi (expoSearch n e a + 1)"
proof (induction n arbitrary: e)
  case 0
  then show ?case by simp
next
  case (Suc n)
  show ?case
  proof (cases "2 powi e \<le> a")
    case True
    with Suc.prems show ?thesis by simp
  next
    case False
    then have eq: "expoSearch (Suc n) e a = expoSearch n (e - 1) a" by simp
    show ?thesis
    proof (cases "expoSearch n (e - 1) a < e - 1")
      case True
      from Suc.IH[OF this] eq show ?thesis by simp
    next
      case f: False
      with expoSearch_range[of "e - 1" n a] have "expoSearch n (e - 1) a = e - 1" by simp
      with False eq show ?thesis by simp
    qed
  qed
qed

lemma expoSearch_lower: "e - int n < expoSearch n e a \<Longrightarrow> 2 powi (expoSearch n e a) \<le> a"
proof (induction n arbitrary: e)
  case 0
  then show ?case by simp
next
  case (Suc n)
  show ?case
  proof (cases "2 powi e \<le> a")
    case True
    then show ?thesis by simp
  next
    case False
    then have eq: "expoSearch (Suc n) e a = expoSearch n (e - 1) a" by simp
    with Suc.prems have "e - 1 - int n < expoSearch n (e - 1) a" by simp
    from Suc.IH[OF this] eq show ?thesis by simp
  qed
qed

lemma expoSearch_mono: "a \<le> b \<Longrightarrow> expoSearch n e a \<le> expoSearch n e b"
proof (induction n arbitrary: e)
  case 0
  then show ?case by simp
next
  case (Suc n)
  from Suc.IH[OF Suc.prems, of "e - 1"] expoSearch_range[of "e - 1" n a] Suc.prems
  show ?case by auto
qed

lemma expo32_range: "- 126 \<le> expo32 x" "expo32 x \<le> 127"
  using expoSearch_range[of 127 253 "\<bar>x\<bar>"] by (simp_all add: expo32_def)

lemma expo32_upper: "expo32 x < 127 \<Longrightarrow> \<bar>x\<bar> < 2 powi (expo32 x + 1)"
  unfolding expo32_def by (rule expoSearch_upper)

lemma expo32_lower: "- 126 < expo32 x \<Longrightarrow> 2 powi (expo32 x) \<le> \<bar>x\<bar>"
  unfolding expo32_def by (rule expoSearch_lower) simp

lemma expo32_mono: "\<bar>x\<bar> \<le> \<bar>y\<bar> \<Longrightarrow> expo32 x \<le> expo32 y"
  unfolding expo32_def by (rule expoSearch_mono)

lemma ulp32_pos: "0 < ulp32 x"
  by (simp add: ulp32_def)

lemma round32_zero [simp]: "round32 0 = 0"
  by (simp add: round32_def)

lemma power_int_two_quot: "(2::real) powi a / 2 powi b = 2 powi (a - b)"
  by (simp add: power_int_diff)

lemma two_powi_mult: "(2::real) powi a * 2 powi b = 2 powi (a + b)"
  by (simp add: power_int_add)

lemma ulp32_scale: "a + 23 = b \<Longrightarrow> 2 powi b * ulp32 x = 2 powi (expo32 x + a)"
proof -
  assume "a + 23 = b"
  then have "b + (expo32 x - 23) = expo32 x + a" by simp
  then show ?thesis unfolding ulp32_def two_powi_mult by (simp only:)
qed

lemma round32_nonneg_mono:
  assumes "0 \<le> x" and "x \<le> y"
  shows "round32 x \<le> round32 y"
proof -
  have ord: "expo32 x \<le> expo32 y" using assms by (intro expo32_mono) simp
  show ?thesis
  proof (cases "expo32 x = expo32 y")
    case True
    then have u: "ulp32 x = ulp32 y" by (simp add: ulp32_def)
    have "x / ulp32 y \<le> y / ulp32 y"
      using assms(2) ulp32_pos[of y] by (simp add: divide_right_mono)
    then have "roundEven (x / ulp32 y) \<le> roundEven (y / ulp32 y)" by (rule roundEven_mono)
    then show ?thesis
      using ulp32_pos[of y] by (simp add: round32_def u mult_right_mono)
  next
    case False
    with ord have lt: "expo32 x < expo32 y" by simp
    with expo32_range[of y] have "expo32 x < 127" by simp
    then have xb: "x < 2 powi (expo32 x + 1)" using expo32_upper[of x] assms(1) by simp
    from lt expo32_range[of x] have "- 126 < expo32 y" by simp
    then have yb: "2 powi (expo32 y) \<le> y" using expo32_lower[of y] assms by simp
    have "x / ulp32 x \<le> 2 powi (expo32 x + 1) / ulp32 x"
      using xb ulp32_pos[of x] by (simp add: divide_right_mono)
    also have "2 powi (expo32 x + 1) / ulp32 x = (2::real) powi 24"
      by (simp add: ulp32_def power_int_two_quot)
    also have "\<dots> = of_int (2 ^ 24)" by simp
    finally have "roundEven (x / ulp32 x) \<le> roundEven (of_int (2 ^ 24))"
      by (rule roundEven_mono)
    then have "of_int (roundEven (x / ulp32 x)) \<le> (2::real) powi 24" by simp
    then have "round32 x \<le> 2 powi 24 * ulp32 x"
      using ulp32_pos[of x] by (simp add: round32_def mult_right_mono)
    also have "2 powi 24 * ulp32 x = 2 powi (expo32 x + 1)"
      by (rule ulp32_scale) simp
    finally have left: "round32 x \<le> 2 powi (expo32 x + 1)" .
    have "2 powi (expo32 y) / ulp32 y \<le> y / ulp32 y"
      using yb ulp32_pos[of y] by (simp add: divide_right_mono)
    moreover have "2 powi (expo32 y) / ulp32 y = (2::real) powi 23"
      by (simp add: ulp32_def power_int_two_quot)
    moreover have "(2::real) powi 23 = of_int (2 ^ 23)" by simp
    ultimately have "roundEven (of_int (2 ^ 23)) \<le> roundEven (y / ulp32 y)"
      by (metis roundEven_mono)
    then have "(2::real) powi 23 \<le> of_int (roundEven (y / ulp32 y))" by simp
    then have "2 powi 23 * ulp32 y \<le> round32 y"
      using ulp32_pos[of y] by (simp add: round32_def mult_right_mono)
    moreover have "2 powi 23 * ulp32 y = 2 powi (expo32 y)"
      using ulp32_scale[of 0 23 y] by simp
    ultimately have right: "2 powi (expo32 y) \<le> round32 y" by simp
    have "(2::real) powi (expo32 x + 1) \<le> 2 powi (expo32 y)"
      using lt by (intro power_int_increasing) simp_all
    with left right show ?thesis by linarith
  qed
qed

lemma roundEven_minus: "roundEven (- y) = - roundEven y"
proof (cases "y = of_int \<lfloor>y\<rfloor>")
  case True
  then obtain k where "y = of_int k" ..
  then have "roundEven (- y) = roundEven (of_int (- k))" by simp
  also have "\<dots> = - k" by (rule roundEven_of_int)
  finally show ?thesis using \<open>y = of_int k\<close> by simp
next
  case False
  then have c: "\<lceil>y\<rceil> = \<lfloor>y\<rfloor> + 1" by (simp add: ceiling_altdef)
  have f: "\<lfloor>- y\<rfloor> = - \<lfloor>y\<rfloor> - 1" by (simp add: floor_minus c)
  have d: "0 < y - of_int \<lfloor>y\<rfloor>" using False by (simp add: less_le)
  show ?thesis
    unfolding roundEven_def Let_def f using d by (auto simp: algebra_simps)
qed

lemma expo32_minus [simp]: "expo32 (- x) = expo32 x"
  by (simp add: expo32_def)

lemma round32_minus: "round32 (- x) = - round32 x"
  by (simp add: round32_def ulp32_def roundEven_minus)

lemma round32_mono: "x \<le> y \<Longrightarrow> round32 x \<le> round32 y"
proof -
  assume le: "x \<le> y"
  consider "0 \<le> x" | "y \<le> 0" | "x < 0" "0 < y" by linarith
  then show ?thesis
  proof cases
    case 1
    from 1 le show ?thesis by (rule round32_nonneg_mono)
  next
    case 2
    with le have "round32 (- y) \<le> round32 (- x)" by (intro round32_nonneg_mono) simp_all
    then show ?thesis by (simp add: round32_minus)
  next
    case 3
    have "round32 (- x) \<ge> round32 0" using 3 by (intro round32_nonneg_mono) simp_all
    moreover have "round32 0 \<le> round32 y" using 3 by (intro round32_nonneg_mono) simp_all
    ultimately show ?thesis by (simp add: round32_minus)
  qed
qed

text \<open>The binade of a value fixes its exponent.\<close>

lemma expo32_eq:
  assumes "2 powi e \<le> \<bar>x\<bar>" and "\<bar>x\<bar> < 2 powi (e + 1)" and "- 126 \<le> e" and "e \<le> 127"
  shows "expo32 x = e"
proof (rule antisym)
  show "expo32 x \<le> e"
  proof (rule ccontr)
    assume "\<not> expo32 x \<le> e"
    then have gt: "e + 1 \<le> expo32 x" by simp
    with assms(3) have "2 powi (expo32 x) \<le> \<bar>x\<bar>" by (intro expo32_lower) simp
    moreover have "(2::real) powi (e + 1) \<le> 2 powi (expo32 x)"
      using gt by (intro power_int_increasing) simp_all
    ultimately show False using assms(2) by linarith
  qed
  show "e \<le> expo32 x"
  proof (rule ccontr)
    assume "\<not> e \<le> expo32 x"
    then have lt: "expo32 x + 1 \<le> e" by simp
    with assms(4) have "\<bar>x\<bar> < 2 powi (expo32 x + 1)" by (intro expo32_upper) simp
    moreover have "(2::real) powi (expo32 x + 1) \<le> 2 powi e"
      using lt by (intro power_int_increasing) simp_all
    ultimately show False using assms(1) by linarith
  qed
qed

lemma round32_in_binade:
  assumes "2 powi e \<le> \<bar>x\<bar>" and "\<bar>x\<bar> < 2 powi (e + 1)" and "- 126 \<le> e" and "e \<le> 127"
  shows "round32 x = of_int (roundEven (x / 2 powi (e - 23))) * 2 powi (e - 23)"
  by (simp add: round32_def ulp32_def expo32_eq[OF assms])

text \<open>A value with a significand of 24 bits is kept.\<close>

lemma round32_exact:
  assumes "x = of_int m * 2 powi e" and "\<bar>m\<bar> < 2 ^ 24" and "- 149 \<le> e"
  shows "round32 x = x"
proof (cases "m = 0")
  case True
  with assms(1) show ?thesis by simp
next
  case False
  define E where "E = expo32 x"
  have "E - 23 \<le> e"
  proof (cases "- 126 < E")
    case False
    with expo32_range(1)[of x] have "E = - 126" by (simp add: E_def)
    with assms(3) show ?thesis by simp
  next
    case True
    then have "2 powi E \<le> \<bar>x\<bar>" unfolding E_def by (rule expo32_lower)
    also have "\<bar>x\<bar> = of_int \<bar>m\<bar> * 2 powi e" by (simp add: assms(1) abs_mult)
    also have "\<dots> < 2 powi 24 * 2 powi e"
    proof -
      have "(of_int \<bar>m\<bar> :: real) < of_int (2 ^ 24)" using assms(2) by (simp only: of_int_less_iff)
      then show ?thesis by (simp add: mult_strict_right_mono)
    qed
    also have "\<dots> = 2 powi (24 + e)" by (rule two_powi_mult)
    finally have lt: "(2::real) powi E < 2 powi (24 + e)" .
    have "E < 24 + e"
    proof (rule ccontr)
      assume "\<not> E < 24 + e"
      then have "(2::real) powi (24 + e) \<le> 2 powi E"
        by (intro power_int_increasing) simp_all
      with lt show False by simp
    qed
    then show ?thesis by simp
  qed
  then obtain k where k: "e = E - 23 + int k"
    by (metis add.commute diff_add_cancel nonneg_int_cases diff_ge_0_iff_ge)
  have "x / ulp32 x = of_int m * (2 powi e / 2 powi (E - 23))"
    by (simp add: assms(1) ulp32_def E_def)
  also have "2 powi e / 2 powi (E - 23) = (2::real) powi (int k)"
    by (simp add: power_int_two_quot k)
  also have "\<dots> = of_int (2 ^ k)" by simp
  finally have q: "x / ulp32 x = of_int (m * 2 ^ k)" by simp
  have "round32 x = of_int (m * 2 ^ k) * ulp32 x"
    unfolding round32_def q roundEven_of_int ..
  also have "\<dots> = (x / ulp32 x) * ulp32 x" by (simp only: q)
  also have "\<dots> = x" using ulp32_pos[of x] by simp
  finally show ?thesis .
qed

lemma round32_one [simp]: "round32 1 = 1"
  using round32_exact[of 1 1 0] by simp

lemma round32_numeral [simp]:
  "(numeral n :: int) < 2 ^ 24 \<Longrightarrow> round32 (numeral n) = numeral n"
  using round32_exact[of "numeral n" "numeral n" 0] by simp

lemma round32_halves [simp]:
  "round32 (1 / 2) = 1 / 2"
  "(numeral n :: int) < 2 ^ 24 \<Longrightarrow> round32 (numeral n / 2) = numeral n / 2"
  using round32_exact[of "1 / 2" 1 "- 1"] round32_exact[of "numeral n / 2" "numeral n" "- 1"]
  by simp_all

lemma round32_quarters [simp]:
  "round32 (1 / 4) = 1 / 4"
  "(numeral n :: int) < 2 ^ 24 \<Longrightarrow> round32 (numeral n / 4) = numeral n / 4"
  using round32_exact[of "1 / 4" 1 "- 2"] round32_exact[of "numeral n / 4" "numeral n" "- 2"]
  by simp_all

declare round32_minus [simp]

subsection \<open>Interpolation over the time of day\<close>

lemma factor_bounds:
  assumes "0 \<le> d" and "d \<le> c" and "0 < c" and "round32 c = c"
  shows "0 \<le> round32 (round32 d / c) \<and> round32 (round32 d / c) \<le> 1"
proof -
  have lo: "0 \<le> round32 d" using round32_mono[OF assms(1)] by simp
  have hi: "round32 d \<le> c" using round32_mono[OF assms(2)] assms(4) by simp
  from lo assms(3) have "0 \<le> round32 d / c" by simp
  then have a: "0 \<le> round32 (round32 d / c)" using round32_mono[of 0 "round32 d / c"] by simp
  from hi assms(3) have "round32 d / c \<le> 1" by simp
  then have b: "round32 (round32 d / c) \<le> 1" using round32_mono[of "round32 d / c" 1] by simp
  from a b show ?thesis ..
qed

lemma getValue_T_night:
  "gameHour \<le> mNightEnd ts \<or> round32 (mNightStart ts + 1) \<le> gameHour \<Longrightarrow>
   getValue_T lerpT dflt ip gameHour ts = mNightValue ip"
  by (auto simp: getValue_T_def)

lemma getValue_T_fadeIn:
  "mNightEnd ts < gameHour \<Longrightarrow> gameHour < round32 (mNightStart ts + 1) \<Longrightarrow>
   gameHour \<le> round32 (mDayStart ts + 1) \<Longrightarrow> gameHour \<le> mSunriseTime ts \<Longrightarrow>
   getValue_T lerpT dflt ip gameHour ts =
     lerpT (mSunriseValue ip) (mNightValue ip)
       (round32 (round32 (mSunriseTime ts - gameHour) / (1 / 2)))"
  by (simp add: getValue_T_def Let_def)

lemma getValue_T_fadeOut:
  "mNightEnd ts < gameHour \<Longrightarrow> gameHour < round32 (mNightStart ts + 1) \<Longrightarrow>
   gameHour \<le> round32 (mDayStart ts + 1) \<Longrightarrow> mSunriseTime ts < gameHour \<Longrightarrow>
   getValue_T lerpT dflt ip gameHour ts =
     lerpT (mSunriseValue ip) (mDayValue ip)
       (round32 (round32 (gameHour - mSunriseTime ts) / 3))"
  by (simp add: getValue_T_def Let_def)

lemma getValue_T_day:
  "mNightEnd ts < gameHour \<Longrightarrow> gameHour < round32 (mNightStart ts + 1) \<Longrightarrow>
   round32 (mDayStart ts + 1) < gameHour \<Longrightarrow> gameHour \<le> round32 (mDayEnd ts - 1) \<Longrightarrow>
   getValue_T lerpT dflt ip gameHour ts = mDayValue ip"
  by (simp add: getValue_T_def)

lemma getValue_T_setIn:
  "mNightEnd ts < gameHour \<Longrightarrow> gameHour < round32 (mNightStart ts + 1) \<Longrightarrow>
   round32 (mDayStart ts + 1) < gameHour \<Longrightarrow> round32 (mDayEnd ts - 1) < gameHour \<Longrightarrow>
   gameHour \<le> round32 (mDayEnd ts + 1) \<Longrightarrow>
   getValue_T lerpT dflt ip gameHour ts =
     lerpT (mSunsetValue ip) (mDayValue ip)
       (round32 (round32 (round32 (mDayEnd ts + 1) - gameHour) / 2))"
  by (simp add: getValue_T_def Let_def)

lemma getValue_T_setOut:
  "mNightEnd ts < gameHour \<Longrightarrow> gameHour < round32 (mNightStart ts + 1) \<Longrightarrow>
   round32 (mDayStart ts + 1) < gameHour \<Longrightarrow> round32 (mDayEnd ts - 1) < gameHour \<Longrightarrow>
   round32 (mDayEnd ts + 1) < gameHour \<Longrightarrow>
   getValue_T lerpT dflt ip gameHour ts =
     lerpT (mSunsetValue ip) (mNightValue ip)
       (round32 (round32 (gameHour - round32 (mDayEnd ts + 1)) / 2))"
  by (simp add: getValue_T_def Let_def)

lemma makeTimeSettings_6_18_2_2:
  "makeTimeSettings 6 18 2 2 =
     \<lparr>mNightStart = 20, mNightEnd = 11 / 2, mDayStart = 8, mDayEnd = 18, mSunriseTime = 6\<rparr>"
  by (simp add: makeTimeSettings_def)

lemma makeTimeSettings_6_18_2_4:
  "makeTimeSettings 6 18 2 4 =
     \<lparr>mNightStart = 22, mNightEnd = 11 / 2, mDayStart = 8, mDayEnd = 18, mSunriseTime = 6\<rparr>"
  by (simp add: makeTimeSettings_def)

lemma round32_third: "round32 (1 / 3) = 11184811 / 33554432"
  using round32_in_binade[of "- 2" "1 / 3"] by (simp add: roundEven_def power_int_minus)

lemma round32_lerp_steps:
  "round32 (1 - 11184811 / 33554432) = 5592405 / 8388608"
  "round32 (255 * (5592405 / 8388608)) = 11141119 / 65536"
  "round32 (255 * (11184811 / 33554432)) = 85"
  "round32 (11141119 / 65536 + 85) = 16711679 / 65536"
  using round32_in_binade[of "- 1" "1 - 11184811 / 33554432"]
    round32_in_binade[of 7 "255 * (5592405 / 8388608)"]
    round32_in_binade[of 6 "255 * (11184811 / 33554432)"]
    round32_exact[of "11141119 / 65536 + 85" 16711679 "- 16"]
  by (simp_all add: roundEven_def power_int_minus)

lemma lerp_255: "lerp 255 255 (11184811 / 33554432) = 16711679 / 65536"
  by (simp only: lerp_def round32_lerp_steps)

text \<open>
  C7, as the code has it. For every game hour from \<open>0\<close> up to \<open>24\<close> and all settings that
  satisfy the boundary invariant and whose windows the fixed fade lengths cover,
  \<open>getValue\<close> returns the night or the day keyframe or the blend of two adjacent
  keyframes by an interpolation factor from \<open>0\<close> to \<open>1\<close>; the factor is the same for the
  interpolators of scalars and of colours. No bound by the least and the greatest
  keyframe is stated: the rounding inside \<open>lerp\<close> can take a blend out of it.
\<close>

theorem getValue_convex:
  assumes "0 \<le> gameHour" and "gameHour < 24"
    and "boundaryInvariant ts" and "fadesCoverWindows ts"
  shows "\<exists>factor. 0 \<le> factor \<and> factor \<le> 1 \<and>
           (\<forall>ip. blendOf lerp ip factor (getValue ip gameHour ts)) \<and>
           (\<forall>ip. blendOf lerp_Vec4f ip factor (getValue_Vec4f ip gameHour ts))"
proof -
  let ?h = gameHour
  let ?N1 = "round32 (mNightStart ts + 1)" and ?D1 = "round32 (mDayStart ts + 1)"
  let ?E0 = "round32 (mDayEnd ts - 1)" and ?E1 = "round32 (mDayEnd ts + 1)"
  from assms(4) have c: "mSunriseTime ts \<le> mNightEnd ts + 1 / 2" "?D1 \<le> mSunriseTime ts + 3"
    "?E1 \<le> ?E0 + 2" "?N1 \<le> ?E1 + 2"
    by (simp_all add: fadesCoverWindows_def)
  consider
      (night) "?h \<le> mNightEnd ts \<or> ?N1 \<le> ?h"
    | (fadeIn) "mNightEnd ts < ?h" "?h < ?N1" "?h \<le> ?D1" "?h \<le> mSunriseTime ts"
    | (fadeOut) "mNightEnd ts < ?h" "?h < ?N1" "?h \<le> ?D1" "mSunriseTime ts < ?h"
    | (day) "mNightEnd ts < ?h" "?h < ?N1" "?D1 < ?h" "?h \<le> ?E0"
    | (setIn) "mNightEnd ts < ?h" "?h < ?N1" "?D1 < ?h" "?E0 < ?h" "?h \<le> ?E1"
    | (setOut) "mNightEnd ts < ?h" "?h < ?N1" "?D1 < ?h" "?E0 < ?h" "?E1 < ?h"
    by linarith
  then show ?thesis
  proof cases
    case night
    then show ?thesis
      by (intro exI[of _ 0]) (simp add: blendOf_def getValue_def getValue_Vec4f_def getValue_T_night)
  next
    case fadeIn
    let ?f = "round32 (round32 (mSunriseTime ts - ?h) / (1 / 2))"
    have "0 \<le> ?f \<and> ?f \<le> 1"
      using fadeIn c by (intro factor_bounds) simp_all
    then show ?thesis
      by (intro exI[of _ ?f])
         (simp add: blendOf_def getValue_def getValue_Vec4f_def getValue_T_fadeIn[OF fadeIn])
  next
    case fadeOut
    let ?f = "round32 (round32 (?h - mSunriseTime ts) / 3)"
    have "0 \<le> ?f \<and> ?f \<le> 1"
      using fadeOut c by (intro factor_bounds) simp_all
    then show ?thesis
      by (intro exI[of _ ?f])
         (simp add: blendOf_def getValue_def getValue_Vec4f_def getValue_T_fadeOut[OF fadeOut])
  next
    case day
    then show ?thesis
      by (intro exI[of _ 0]) (simp add: blendOf_def getValue_def getValue_Vec4f_def getValue_T_day)
  next
    case setIn
    let ?f = "round32 (round32 (?E1 - ?h) / 2)"
    have "0 \<le> ?f \<and> ?f \<le> 1"
      using setIn c by (intro factor_bounds) simp_all
    then show ?thesis
      by (intro exI[of _ ?f])
         (simp add: blendOf_def getValue_def getValue_Vec4f_def getValue_T_setIn[OF setIn])
  next
    case setOut
    let ?f = "round32 (round32 (?h - ?E1) / 2)"
    have "0 \<le> ?f \<and> ?f \<le> 1"
      using setOut c by (intro factor_bounds) simp_all
    then show ?thesis
      by (intro exI[of _ ?f])
         (simp add: blendOf_def getValue_def getValue_Vec4f_def getValue_T_setOut[OF setOut])
  qed
qed

theorem getValue_convex_witness:
  "boundaryInvariant (makeTimeSettings 6 18 2 2) \<and> fadesCoverWindows (makeTimeSettings 6 18 2 2) \<and>
   (\<exists>factor. 0 \<le> factor \<and> factor \<le> 1 \<and>
      (\<forall>ip. blendOf lerp ip factor (getValue ip 7 (makeTimeSettings 6 18 2 2))) \<and>
      (\<forall>ip. blendOf lerp_Vec4f ip factor (getValue_Vec4f ip 7 (makeTimeSettings 6 18 2 2)))) \<and>
   getValue \<lparr>mSunriseValue = 0, mDayValue = 1, mSunsetValue = 2, mNightValue = 3\<rparr> 7.5
     (makeTimeSettings 6 18 2 2) = lerp 0 1 0.5 \<and>
   lerp 0 1 0.5 = 0.5"
proof -
  let ?ts = "makeTimeSettings 6 18 2 2"
  have b: "boundaryInvariant ?ts"
    by (simp add: boundaryInvariant_def makeTimeSettings_6_18_2_2)
  have c: "fadesCoverWindows ?ts"
    by (simp add: fadesCoverWindows_def makeTimeSettings_6_18_2_2)
  have v: "getValue \<lparr>mSunriseValue = 0, mDayValue = 1, mSunsetValue = 2, mNightValue = 3\<rparr> 7.5 ?ts =
      lerp 0 1 0.5"
    by (simp add: makeTimeSettings_6_18_2_2 getValue_def getValue_T_def Let_def)
  have l: "lerp 0 1 0.5 = 0.5"
    by (simp add: lerp_def)
  from getValue_convex[of 7 ?ts, OF _ _ b c]
  have e: "\<exists>factor. 0 \<le> factor \<and> factor \<le> 1 \<and>
      (\<forall>ip. blendOf lerp ip factor (getValue ip 7 ?ts)) \<and>
      (\<forall>ip. blendOf lerp_Vec4f ip factor (getValue_Vec4f ip 7 ?ts))"
    by simp
  from b c e v l show ?thesis by blast
qed

text \<open>
  The claim C7 as the spec states it fails twice. The settings built from the sun times
  \<open>6\<close> and \<open>18\<close> and the durations \<open>2\<close> and \<open>4\<close> satisfy the boundary invariant, and at the
  hour \<open>22.5\<close> the sunset value \<open>2\<close> and the night value \<open>3\<close> are blended by the factor
  \<open>1.75\<close> to \<open>3.75\<close>, above every keyframe. With the durations \<open>2\<close> and \<open>2\<close> the factor at
  the hour \<open>7\<close> is the binary32 value of \<open>1/3\<close>, and the blend of \<open>255\<close> and \<open>255\<close> by it is
  \<open>16711679 / 65536\<close>, below every keyframe.
\<close>

theorem getValue_extrapolates:
  "boundaryInvariant (makeTimeSettings 6 18 2 4) \<and>
   getValue \<lparr>mSunriseValue = 0, mDayValue = 1, mSunsetValue = 2, mNightValue = 3\<rparr> 22.5
     (makeTimeSettings 6 18 2 4) = lerp 2 3 1.75 \<and>
   lerp 2 3 1.75 = 3.75 \<and>
   Max (keyframes \<lparr>mSunriseValue = 0, mDayValue = 1, mSunsetValue = 2, mNightValue = 3 :: real\<rparr>) = 3 \<and>
   boundaryInvariant (makeTimeSettings 6 18 2 2) \<and>
   fadesCoverWindows (makeTimeSettings 6 18 2 2) \<and>
   getValue \<lparr>mSunriseValue = 255, mDayValue = 255, mSunsetValue = 255, mNightValue = 255\<rparr> 7
     (makeTimeSettings 6 18 2 2) = lerp 255 255 (round32 (1 / 3)) \<and>
   lerp 255 255 (round32 (1 / 3)) = 16711679 / 65536 \<and>
   (16711679 / 65536 :: real) <
     Min (keyframes \<lparr>mSunriseValue = 255, mDayValue = 255, mSunsetValue = 255, mNightValue = 255\<rparr>)"
proof -
  have b4: "boundaryInvariant (makeTimeSettings 6 18 2 4)"
    by (simp add: boundaryInvariant_def makeTimeSettings_6_18_2_4)
  have v4: "getValue \<lparr>mSunriseValue = 0, mDayValue = 1, mSunsetValue = 2, mNightValue = 3\<rparr> 22.5
     (makeTimeSettings 6 18 2 4) = lerp 2 3 1.75"
    by (simp add: makeTimeSettings_6_18_2_4 getValue_def getValue_T_def Let_def)
  have l4: "lerp 2 3 1.75 = 3.75"
    by (simp add: lerp_def)
  have m: "Max (keyframes \<lparr>mSunriseValue = 0, mDayValue = 1, mSunsetValue = 2, mNightValue = 3 :: real\<rparr>) = 3"
    by (simp add: keyframes_def)
  have b2: "boundaryInvariant (makeTimeSettings 6 18 2 2)"
    by (simp add: boundaryInvariant_def makeTimeSettings_6_18_2_2)
  have c2: "fadesCoverWindows (makeTimeSettings 6 18 2 2)"
    by (simp add: fadesCoverWindows_def makeTimeSettings_6_18_2_2)
  have v2: "getValue \<lparr>mSunriseValue = 255, mDayValue = 255, mSunsetValue = 255, mNightValue = 255\<rparr> 7
     (makeTimeSettings 6 18 2 2) = lerp 255 255 (round32 (1 / 3))"
    by (simp add: makeTimeSettings_6_18_2_2 getValue_def getValue_T_def Let_def)
  have l2: "lerp 255 255 (round32 (1 / 3)) = 16711679 / 65536"
    by (simp only: round32_third lerp_255)
  have lt: "(16711679 / 65536 :: real) <
      Min (keyframes \<lparr>mSunriseValue = 255, mDayValue = 255, mSunsetValue = 255, mNightValue = 255\<rparr>)"
    by (simp add: keyframes_def)
  from b4 v4 l4 m b2 c2 v2 l2 lt show ?thesis by blast
qed

subsection \<open>The invariant of the transition state\<close>

lemma transitionInvariant_cong:
  "mCurrentWeather s' = mCurrentWeather s \<Longrightarrow> mNextWeather s' = mNextWeather s \<Longrightarrow>
   mQueuedWeather s' = mQueuedWeather s \<Longrightarrow>
   vsize (mWeatherSettings s') = vsize (mWeatherSettings s) \<Longrightarrow>
   transitionInvariant s' = transitionInvariant s"
  by (simp add: transitionInvariant_def validOrSentinel_def validWeatherID_def inTransition_def)

lemma inv_mRegions: "transitionInvariant (s\<lparr>mRegions := m\<rparr>) = transitionInvariant s"
  by (rule transitionInvariant_cong) simp_all

lemma inv_forceWeather:
  "vsize (mWeatherSettings s) = 10 \<Longrightarrow> validWeatherID s weatherID \<Longrightarrow>
   transitionInvariant (forceWeather weatherID s)"
  by (simp add: transitionInvariant_def validOrSentinel_def validWeatherID_def inTransition_def
      forceWeather_def)

lemma inv_addWeatherTransition:
  "transitionInvariant s \<Longrightarrow> addWeatherTransition weatherID s = Inr s' \<Longrightarrow>
   transitionInvariant s'"
  by (auto simp: addWeatherTransition_def transitionInvariant_def validOrSentinel_def
      validWeatherID_def inTransition_def split: if_splits)

lemma inv_updateWeatherTransitions:
  "transitionInvariant s \<Longrightarrow> updateWeatherTransitions elapsed s = Inr s' \<Longrightarrow>
   transitionInvariant s'"
  by (auto simp: updateWeatherTransitions_def transitionInvariant_def validOrSentinel_def
      validWeatherID_def inTransition_def Let_def split: if_splits sum.splits)

lemma inv_regionalWeatherChanged:
  "transitionInvariant s \<Longrightarrow> regionalWeatherChanged player roll regionID s = Inr s' \<Longrightarrow>
   transitionInvariant s'"
  by (auto simp: regionalWeatherChanged_def Let_def inv_mRegions
      split: if_splits option.splits prod.splits
      dest!: inv_addWeatherTransition[rotated])

lemma inv_changeWeather:
  "transitionInvariant s \<Longrightarrow> changeWeather player roll regionID weatherID s = Inr s' \<Longrightarrow>
   transitionInvariant s'"
  by (auto simp: changeWeather_def Let_def inv_mRegions split: if_splits option.splits
      dest!: inv_regionalWeatherChanged[rotated])

lemma ids_importRegions:
  "mCurrentWeather (importRegions s) = mCurrentWeather s"
  "mNextWeather (importRegions s) = mNextWeather s"
  "mQueuedWeather (importRegions s) = mQueuedWeather s"
  "mWeatherSettings (importRegions s) = mWeatherSettings s"
  by (simp_all add: importRegions_def)

lemma inv_importRegions: "transitionInvariant (importRegions s) = transitionInvariant s"
  by (rule transitionInvariant_cong) (simp_all add: ids_importRegions)

lemma inv_readRecord:
  assumes "transitionInvariant s"
    and "REC_WTHR = type \<and> \<not> format < oldestCompatibleSaveFormat
           \<longrightarrow> stateInvariant (vsize (mWeatherSettings s)) state"
  shows "transitionInvariant (snd (readRecord REC_WTHR format state type s))"
proof (cases "REC_WTHR = type \<and> \<not> format < oldestCompatibleSaveFormat")
  case False
  with assms(1) show ?thesis by (auto simp: readRecord_def)
next
  case True
  with assms(2) have st: "stateInvariant (vsize (mWeatherSettings s)) state" by simp
  let ?s1 = "s\<lparr>mCurrentRegion := wsCurrentRegion state,
                mTimePassed := wsTimePassed state,
                mFastForward := wsFastForward state,
                mWeatherUpdateTime := wsWeatherUpdateTime state,
                mTransitionFactor := wsTransitionFactor state,
                mCurrentWeather := wsCurrentWeather state,
                mNextWeather := wsNextWeather state,
                mQueuedWeather := wsQueuedWeather state,
                mRegions := Map.empty\<rparr>"
  have inv1: "transitionInvariant ?s1"
    using assms(1) st
    by (simp add: transitionInvariant_def stateInvariant_def validOrSentinel_def
        validWeatherID_def inTransition_def)
  show ?thesis
  proof (cases "wsRegions state = []")
    case e: True
    with True have "snd (readRecord REC_WTHR format state type s) = importRegions ?s1"
      by (simp add: readRecord_def Let_def)
    with inv1 show ?thesis by (simp add: inv_importRegions)
  next
    case ne: False
    with True have "snd (readRecord REC_WTHR format state type s) =
        ?s1\<lparr>mRegions :=
              foldl (\<lambda>m (regionID, st). insertRegion regionID (RegionWeather_of_State st) m)
                (mRegions ?s1) (wsRegions state)\<rparr>"
      by (simp add: readRecord_def Let_def)
    then have "transitionInvariant (snd (readRecord REC_WTHR format state type s)) =
        transitionInvariant ?s1"
      by (simp only: inv_mRegions)
    with inv1 show ?thesis by simp
  qed
qed

lemma inv_thunderAt:
  "transitionInvariant s \<Longrightarrow>
   thunderAt weatherID ratio elapsed isPaused prob distance s = Inr (flash, sounds, s') \<Longrightarrow>
   transitionInvariant s'"
proof -
  assume inv: "transitionInvariant s"
    and run: "thunderAt weatherID ratio elapsed isPaused prob distance s = Inr (flash, sounds, s')"
  from run obtain w' where
    "s' = s\<lparr>mWeatherSettings :=
              (mWeatherSettings s)\<lparr>elems := (elems (mWeatherSettings s))[nat weatherID := w']\<rparr>\<rparr>"
    by (auto simp: thunderAt_def split: sum.splits prod.splits)
  then have "transitionInvariant s' = transitionInvariant s"
    by (intro transitionInvariant_cong) (simp_all add: vsize_def)
  with inv show ?thesis by simp
qed

lemma inv_calculateWeatherResult:
  "transitionInvariant s \<Longrightarrow>
   calculateWeatherResult elapsed isPaused prob1 distance1 prob2 distance2 s = Inr (flash, sounds, s') \<Longrightarrow>
   transitionInvariant s'"
  by (auto simp: calculateWeatherResult_def split: if_splits sum.splits prod.splits
      dest: inv_thunderAt)

lemma inv_updateWeatherTime: "transitionInvariant (snd (updateWeatherTime s)) = transitionInvariant s"
  by (rule transitionInvariant_cong) (simp_all add: updateWeatherTime_def Let_def)

lemma inv_updateWeatherRegion:
  "transitionInvariant (snd (updateWeatherRegion playerRegion s)) = transitionInvariant s"
  by (rule transitionInvariant_cong) (simp_all add: updateWeatherRegion_def)

lemma inv_update:
  assumes "transitionInvariant s"
    and "update duration paused player roll prob1 distance1 prob2 distance2 s = Inr (sounds, s')"
  shows "transitionInvariant s'"
proof -
  obtain timeUp s1 where t: "updateWeatherTime s = (timeUp, s1)" by (cases "updateWeatherTime s")
  obtain changed s2 where
    r: "(if timeUp then (True, s1) else updateWeatherRegion (lowerCase (cellRegion player)) s1) = (changed, s2)"
    by (cases "if timeUp then (True, s1) else updateWeatherRegion (lowerCase (cellRegion player)) s1")
  have inv1: "transitionInvariant s1"
    using inv_updateWeatherTime[of s] t assms(1) by simp
  have inv2: "transitionInvariant s2"
    using inv_updateWeatherRegion[of "lowerCase (cellRegion player)" s1] r inv1
    by (auto split: if_splits)
  define step3 where "step3 =
     (if changed
      then
        (case mRegions s2 (mCurrentRegion s2) of
           None \<Rightarrow> Inr s2
         | Some region \<Rightarrow>
             (case getWeather roll region of
                (weatherID, region') \<Rightarrow>
                  addWeatherTransition weatherID
                    (s2\<lparr>mRegions := (mRegions s2)(mCurrentRegion s2 \<mapsto> region')\<rparr>)))
      else Inr s2)"
  have inv3: "transitionInvariant s3" if "step3 = Inr s3" for s3
    using that inv2
    by (auto simp: step3_def inv_mRegions split: if_splits option.splits prod.splits
        dest!: inv_addWeatherTransition[rotated])
  define step4 where "step4 =
     (if \<not> paused
      then (case step3 of Inl e \<Rightarrow> Inl e | Inr s3 \<Rightarrow> updateWeatherTransitions duration s3)
      else Inr s)"
  have inv4: "transitionInvariant s4" if "step4 = Inr s4" for s4
    using that assms(1) inv3
    by (auto simp: step4_def split: if_splits sum.splits dest: inv_updateWeatherTransitions)
  have unfold: "update duration paused player roll prob1 distance1 prob2 distance2 s =
     (case step4 of
        Inl e \<Rightarrow> Inl e
      | Inr s4 \<Rightarrow>
          (if \<not> isExterior player
           then Inr ([], s4)
           else
             (case calculateWeatherResult duration paused prob1 distance1 prob2 distance2 s4 of
                Inl e \<Rightarrow> Inl e
              | Inr (flash, sounds, s5) \<Rightarrow> Inr (sounds, s5))))"
    by (simp add: update_def step4_def step3_def Let_def t r)
  from assms(2) show ?thesis
    unfolding unfold
    by (auto split: sum.splits if_splits prod.splits dest: inv4 inv_calculateWeatherResult)
qed

lemma inv_new:
  assumes "length weathers = 10"
  shows "transitionInvariant
           (WeatherManager_new weathers store sunrise sunset sunriseDuration sunsetDuration hours)"
  unfolding WeatherManager_new_def
  by (rule inv_forceWeather)
     (simp_all add: ids_importRegions vsize_def assms validWeatherID_def)

lemma inv_perform:
  assumes "transitionInvariant s" and "admissible c s" and "perform c s = Inr s'"
  shows "transitionInvariant s'"
proof (cases c)
  case (ForceWeather weatherID)
  with assms show ?thesis
    by (auto simp: transitionInvariant_def intro!: inv_forceWeather[unfolded transitionInvariant_def])
next
  case (AddWeatherTransition weatherID)
  with assms show ?thesis by (auto dest: inv_addWeatherTransition)
next
  case (UpdateWeatherTransitions elapsed)
  with assms show ?thesis by (auto dest: inv_updateWeatherTransitions)
next
  case (ChangeWeather player roll regionID weatherID)
  with assms show ?thesis by (auto dest: inv_changeWeather)
next
  case (ReadRecord REC_WTHR format state type)
  with assms inv_readRecord[of s REC_WTHR type format state] show ?thesis by auto
next
  case (Update duration paused player roll prob1 distance1 prob2 distance2)
  with assms show ?thesis by (auto split: sum.splits prod.splits dest: inv_update)
qed

lemma exampleManager_constructed: "reachable_admissibly exampleManager"
  unfolding exampleManager_def by (rule constructed_adm) simp

lemma exampleManager_begin:
  "addWeatherTransition 3 exampleManager =
     Inr (exampleManager\<lparr>mNextWeather := 3, mTransitionFactor := 1\<rparr>)"
  by (simp add: addWeatherTransition_def inTransition_def invalidWeatherID_def vsize_def
      exampleManager_fields)

text \<open>
  C4, as the code has it. In every state reached from a constructed manager by calls of
  \<open>forceWeather\<close> with a valid weather id, \<open>addWeatherTransition\<close>,
  \<open>updateWeatherTransitions\<close>, \<open>changeWeather\<close>, \<open>update\<close>, and \<open>readRecord\<close> of a record
  that satisfies the invariant itself, none of which fails: \<open>next\<close> is the sentinel if and
  only if no transition is in progress, \<open>queued\<close> is set only when \<open>next\<close> is, and each of
  \<open>current\<close>, \<open>next\<close> and \<open>queued\<close> is the sentinel or an index into the ten weathers.
\<close>

theorem reachable_invariant:
  "reachable_admissibly s \<Longrightarrow> transitionInvariant s"
  by (induction rule: reachable_admissibly.induct) (auto intro: inv_new inv_perform)

theorem reachable_invariant_witness:
  "reachable_admissibly (exampleManager\<lparr>mNextWeather := 3, mTransitionFactor := 1\<rparr>) \<and>
   transitionInvariant (exampleManager\<lparr>mNextWeather := 3, mTransitionFactor := 1\<rparr>)"
proof -
  let ?s = "exampleManager\<lparr>mNextWeather := 3, mTransitionFactor := 1\<rparr>"
  have "perform (AddWeatherTransition 3) exampleManager = Inr ?s"
    by (simp add: exampleManager_begin)
  moreover have "admissible (AddWeatherTransition 3) exampleManager" by simp
  ultimately have r: "reachable_admissibly ?s"
    by (rule called_adm[OF exampleManager_constructed, rotated])
  from r reachable_invariant[OF r] show ?thesis by blast
qed

text \<open>
  Where \<open>forceWeather\<close> gets an id that is no index: \<open>playerTeleported\<close> passes what
  \<open>getWeather\<close> selects, and for a region whose chances are all \<open>0\<close> that is the size of
  the chance table.
\<close>

lemma playerTeleported_example:
  "playerTeleported \<lparr>isInCell = True, cellRegion = ''Empty Region'', isExterior = True\<rparr> 0
     exampleManager =
   forceWeather 10
     (exampleManager
        \<lparr>mCurrentRegion := ''empty region'',
         mRegions := (mRegions exampleManager)(''empty region'' \<mapsto>
            \<lparr>mWeather = 10, mChances = \<lparr>elems = [0, 0, 0, 0, 0, 0, 0, 0, 0, 0], capacity = 10\<rparr>\<rparr>)\<rparr>)"
  by (simp add: playerTeleported_def getWeather_def chooseNewWeather_def chooseLoop.simps
      invalidWeatherID_def Let_def lowerCase_examples exampleManager_regions exampleManager_fields)

text \<open>
  The claim C4 as the spec states it fails: \<open>readRecord\<close> installs the ids of the record
  as they are, here a queued weather with no next weather, and \<open>forceWeather\<close> installs
  the id it is given, here \<open>10\<close>.
\<close>

theorem invariant_not_kept:
  "reachable
     (snd (readRecord 1 2
        \<lparr>wsCurrentRegion = [], wsTimePassed = 0, wsFastForward = False,
         wsWeatherUpdateTime = 20, wsTransitionFactor = 0, wsCurrentWeather = 0,
         wsNextWeather = - 1, wsQueuedWeather = 5, wsRegions = []\<rparr> 1 exampleManager)) \<and>
   \<not> transitionInvariant
     (snd (readRecord 1 2
        \<lparr>wsCurrentRegion = [], wsTimePassed = 0, wsFastForward = False,
         wsWeatherUpdateTime = 20, wsTransitionFactor = 0, wsCurrentWeather = 0,
         wsNextWeather = - 1, wsQueuedWeather = 5, wsRegions = []\<rparr> 1 exampleManager)) \<and>
   reachable (forceWeather 10 exampleManager) \<and>
   \<not> transitionInvariant (forceWeather 10 exampleManager)"
proof -
  let ?st = "\<lparr>wsCurrentRegion = [], wsTimePassed = 0, wsFastForward = False,
         wsWeatherUpdateTime = 20, wsTransitionFactor = 0, wsCurrentWeather = 0,
         wsNextWeather = - 1, wsQueuedWeather = 5, wsRegions = []\<rparr>"
  let ?s1 = "snd (readRecord 1 2 ?st 1 exampleManager)"
  let ?s2 = "forceWeather 10 exampleManager"
  have r0: "reachable exampleManager"
    unfolding exampleManager_def by (rule constructed) simp
  have r1: "reachable ?s1"
    by (rule called[OF r0, of "ReadRecord 1 2 ?st 1"]) simp
  have r2: "reachable ?s2"
    by (rule called[OF r0, of "ForceWeather 10"]) simp
  have f1: "mNextWeather ?s1 = - 1" "mQueuedWeather ?s1 = 5"
    by (simp_all add: readRecord_def oldestCompatibleSaveFormat_def importRegions_def Let_def)
  from f1 have "mQueuedWeather ?s1 \<noteq> invalidWeatherID" "mNextWeather ?s1 = invalidWeatherID"
    unfolding invalidWeatherID_def by linarith+
  then have n1: "\<not> transitionInvariant ?s1"
    unfolding transitionInvariant_def by blast
  have f2: "mCurrentWeather ?s2 = 10" "vsize (mWeatherSettings ?s2) = 10"
    by (simp_all add: forceWeather_def vsize_def exampleManager_fields)
  have n2: "\<not> transitionInvariant ?s2"
    by (simp add: transitionInvariant_def validOrSentinel_def validWeatherID_def f2
        invalidWeatherID_def)
  from r1 n1 r2 n2 show ?thesis by blast
qed

end
